theory Spec2Isabelle
  imports Complex_Main
begin

section \<open>Values, objects and outcomes\<close>

text \<open>
  The program is a browser script with two variants of the same file:
  \<^verbatim>\<open>src/js/app.js\<close> (updated 2024-10-02) and \<^verbatim>\<open>src/unnamed/part_000\<close>
  (updated 2024-09-26). Both define \<^verbatim>\<open>optimizeStepAndRepeat(props)\<close> and
  \<^verbatim>\<open>commitChanges()\<close>.

  JavaScript numbers are modelled as exact rationals: rounding, \<^verbatim>\<open>NaN\<close> and the
  infinities of IEEE doubles are outside the model. A property value is
  \<^verbatim>\<open>undefined\<close>, \<^verbatim>\<open>null\<close> or a number.
\<close>

datatype val = Undefined | Null | Num rat

text \<open>
  An object is the list of its own properties in insertion order, which is the order in
  which \<^verbatim>\<open>for (let k in props)\<close> enumerates them.
\<close>

type_synonym props = "(string \<times> val) list"

text \<open>Reading \<^verbatim>\<open>props.k\<close>: an absent property reads as \<^verbatim>\<open>undefined\<close>.\<close>

definition lookup :: "props \<Rightarrow> string \<Rightarrow> val" where
  "lookup ps k = (case map_of ps k of None \<Rightarrow> Undefined | Some v \<Rightarrow> v)"

text \<open>
  Writing \<^verbatim>\<open>props.k = v\<close>: an existing property keeps its position, a new one is
  appended.
\<close>

fun assign :: "string \<Rightarrow> val \<Rightarrow> props \<Rightarrow> props" where
  "assign k v [] = [(k, v)]"
| "assign k v ((k', v') # ps) =
     (if k' = k then (k, v) # ps else (k', v') # assign k v ps)"

text \<open>The operator \<^verbatim>\<open>a ?? b\<close>.\<close>

definition nullish :: "val \<Rightarrow> val \<Rightarrow> val" where
  "nullish a b = (case a of Undefined \<Rightarrow> b | Null \<Rightarrow> b | Num x \<Rightarrow> Num x)"

text \<open>
  The number a value stands for in arithmetic and comparisons. \<^verbatim>\<open>null\<close> converts
  to 0. \<^verbatim>\<open>undefined\<close> converts to \<^verbatim>\<open>NaN\<close>, which the model does not have; the
  optimizer only converts properties that it has already made numbers
  (lemma \<open>validate_numeric\<close> below), so that clause is never used.
\<close>

fun toNumber :: "val \<Rightarrow> rat" where
  "toNumber (Num x) = x"
| "toNumber Null = 0"
| "toNumber Undefined = 0"

text \<open>The test \<^verbatim>\<open>0 > v\<close>: false for \<^verbatim>\<open>null\<close> (0) and for \<^verbatim>\<open>undefined\<close> (NaN).\<close>

fun isNegative :: "val \<Rightarrow> bool" where
  "isNegative (Num x) = (0 > x)"
| "isNegative Null = False"
| "isNegative Undefined = False"

text \<open>The test \<^verbatim>\<open>v != 0\<close> (loose inequality): only the number 0 is loosely equal to 0.\<close>

fun looseNotZero :: "val \<Rightarrow> bool" where
  "looseNotZero (Num x) = (x \<noteq> 0)"
| "looseNotZero Null = True"
| "looseNotZero Undefined = True"

text \<open>
  The three \<^verbatim>\<open>throw new Error(...)\<close> of the optimizer, by message:
  \<^verbatim>\<open>Property "k" is null\<close>,
  \<^verbatim>\<open>Too much margin; document width below zero (0)\<close>,
  \<^verbatim>\<open>Too much margin; document height below zero (0)\<close>.
\<close>

datatype error = PropertyIsNull string | TooMuchMarginWidth | TooMuchMarginHeight

text \<open>
  \<^verbatim>\<open>optimizeStepAndRepeat\<close> mutates its argument object and returns that same object.
  The model passes the object's state: \<open>Return ps\<close> says that the call returned its
  argument, now in state \<open>ps\<close>; \<open>Throw e ps\<close> says that it threw \<open>e\<close> and left the
  argument in state \<open>ps\<close>. A call that never returns has no outcome (\<open>None\<close>).
\<close>

datatype outcome = Return props | Throw error props

section \<open>optimizeStepAndRepeat\<close>

subsection \<open>Defaults (app.js lines 54-58, part_000 lines 69-73)\<close>

definition applyDefaults :: "props \<Rightarrow> props" where
  "applyDefaults props0 =
     (let props1 = assign ''documentWidth'' (nullish (lookup props0 ''documentWidth'') Null) props0;
          props2 = assign ''documentHeight'' (nullish (lookup props1 ''documentHeight'') Null) props1;
          props3 = assign ''documentMargin''
                     (nullish (lookup props2 ''documentMargin'') (Num (127 / 10))) props2;
          props4 = assign ''itemWidth'' (nullish (lookup props3 ''itemWidth'') Null) props3;
          props5 = assign ''itemHeight'' (nullish (lookup props4 ''itemHeight'') Null) props4
      in props5)"

subsection \<open>Keep real dimensions (app.js lines 63-64, part_000 lines 78-79)\<close>

definition keepRealDimensions :: "props \<Rightarrow> props" where
  "keepRealDimensions props0 =
     (let props1 = assign ''documentWidthReal'' (lookup props0 ''documentWidth'') props0;
          props2 = assign ''documentHeightReal'' (lookup props1 ''documentHeight'') props1
      in props2)"

subsection \<open>Sanitize properties (app.js lines 67-77, part_000 lines 82-92)\<close>

text \<open>
  The loop visits every property of the object in enumeration order. It throws at the
  first \<^verbatim>\<open>null\<close>, leaving the properties visited before with their sign flipped; a
  negative number is multiplied by \<open>-1\<close>. The body changes only the property it visits,
  so one pass over the list is the loop.
\<close>

fun sanitize :: "props \<Rightarrow> error option \<times> props" where
  "sanitize [] = (None, [])"
| "sanitize ((k, v) # rest) =
     (if v = Null then (Some (PropertyIsNull k), (k, v) # rest)
      else (case sanitize rest of
              (e, rest') \<Rightarrow>
                (e, (k, if isNegative v then Num (toNumber v * (- 1)) else v) # rest')))"

subsection \<open>Take margin into account (app.js lines 82-94, part_000 lines 97-109)\<close>

definition applyMargin :: "props \<Rightarrow> error option \<times> props" where
  "applyMargin props0 =
     (if looseNotZero (lookup props0 ''documentMargin'') then
        (let props1 = assign ''documentWidth''
                        (Num (toNumber (lookup props0 ''documentWidth'')
                              - toNumber (lookup props0 ''documentMargin'') * 2)) props0;
             props2 = assign ''documentHeight''
                        (Num (toNumber (lookup props1 ''documentHeight'')
                              - toNumber (lookup props1 ''documentMargin'') * 2)) props1
         in if 0 \<ge> toNumber (lookup props2 ''documentWidth'') then (Some TooMuchMarginWidth, props2)
            else if 0 \<ge> toNumber (lookup props2 ''documentHeight'') then (Some TooMuchMarginHeight, props2)
            else (None, props2))
      else (None, props0))"

subsection \<open>The packing loops\<close>

text \<open>
  \<^verbatim>\<open>for (let i = 0, accum = 0; i <= doc;) { if (accum + item > doc) break;
  accum += item; ++count; }\<close>: the column loop of both variants (app.js lines 101-109,
  part_000 lines 116-124) and the row loop of app.js (lines 112-120), with \<open>doc\<close> and
  \<open>item\<close> the document and item extent of the axis. The loop has no bound of its own, so
  it is a partial function: \<open>None\<close> is a loop that never ends.

  The sums and comparisons here are exact. The source computes them in IEEE doubles,
  where \<^verbatim>\<open>accum + item\<close> is rounded: the count can then differ from the exact one (three
  times 0.1 is more than 0.3), and the loop never exits when the sum no longer moves the
  accumulator (2^53 + 1 is 2^53 again) or when the document extent is \<^verbatim>\<open>Infinity\<close>. What
  is proved of these loops is proved of exact arithmetic on finite numbers.
\<close>

partial_function (option) countFits :: "rat \<Rightarrow> rat \<Rightarrow> rat \<Rightarrow> rat \<Rightarrow> nat \<Rightarrow> nat option" where
  "countFits i accum item doc count =
     (if i \<le> doc then
        (if accum + item > doc then Some count
         else countFits i (accum + item) item doc (count + 1))
      else Some count)"

text \<open>
  The row loop of part_000 (lines 127-135) breaks on \<^verbatim>\<open>accum + item >= doc\<close> instead.
\<close>

partial_function (option) countFitsStrict :: "rat \<Rightarrow> rat \<Rightarrow> rat \<Rightarrow> rat \<Rightarrow> nat \<Rightarrow> nat option" where
  "countFitsStrict i accum item doc count =
     (if i \<le> doc then
        (if accum + item \<ge> doc then Some count
         else countFitsStrict i (accum + item) item doc (count + 1))
      else Some count)"

declare countFits.simps [code]
declare countFitsStrict.simps [code]

subsection \<open>The checks before the loops (app.js lines 54-94, part_000 lines 69-109)\<close>

text \<open>
  The two variants are the same text up to the loops: the defaults, the retained
  dimensions, the sanitising loop and the margin, each of the two last with its
  \<^verbatim>\<open>throw\<close>.
\<close>

definition validate :: "props \<Rightarrow> error option \<times> props" where
  "validate props0 =
     (case sanitize (keepRealDimensions (applyDefaults props0)) of
        (Some e, props1) \<Rightarrow> (Some e, props1)
      | (None, props1) \<Rightarrow> applyMargin props1)"

subsection \<open>The optimizer of app.js (lines 53-126)\<close>

definition optimizeStepAndRepeat :: "props \<Rightarrow> outcome option" where
  "optimizeStepAndRepeat props0 =
     (case validate props0 of
        (Some e, props) \<Rightarrow> Some (Throw e props)
      | (None, props) \<Rightarrow>
          (case countFits 0 0 (toNumber (lookup props ''itemWidth''))
                              (toNumber (lookup props ''documentWidth'')) 0 of
             None \<Rightarrow> None
           | Some maxColumns \<Rightarrow>
               (case countFits 0 0 (toNumber (lookup props ''itemHeight''))
                                   (toNumber (lookup props ''documentHeight'')) 0 of
                  None \<Rightarrow> None
                | Some maxRows \<Rightarrow>
                    Some (Return (assign ''maxColumns'' (Num (of_nat maxColumns))
                                   (assign ''maxRows'' (Num (of_nat maxRows)) props))))))"

subsection \<open>The optimizer of part_000 (lines 68-141)\<close>

definition optimizeStepAndRepeat_part000 :: "props \<Rightarrow> outcome option" where
  "optimizeStepAndRepeat_part000 props0 =
     (case validate props0 of
        (Some e, props) \<Rightarrow> Some (Throw e props)
      | (None, props) \<Rightarrow>
          (case countFits 0 0 (toNumber (lookup props ''itemWidth''))
                              (toNumber (lookup props ''documentWidth'')) 0 of
             None \<Rightarrow> None
           | Some maxColumns \<Rightarrow>
               (case countFitsStrict 0 0 (toNumber (lookup props ''itemHeight''))
                                         (toNumber (lookup props ''documentHeight'')) 0 of
                  None \<Rightarrow> None
                | Some maxRows \<Rightarrow>
                    Some (Return (assign ''maxColumns'' (Num (of_nat maxColumns))
                                   (assign ''maxRows'' (Num (of_nat maxRows)) props))))))"

section \<open>commitChanges (app.js lines 532-624)\<close>

text \<open>
  The object literal that every call site passes:
  \<^verbatim>\<open>{documentWidth: .., documentHeight: .., documentMargin: .., itemWidth: ..,
  itemHeight: ..}\<close>.
\<close>

definition request :: "rat \<Rightarrow> rat \<Rightarrow> rat \<Rightarrow> rat \<Rightarrow> rat \<Rightarrow> props" where
  "request dw dh dm iw ih =
     [(''documentWidth'', Num dw), (''documentHeight'', Num dh), (''documentMargin'', Num dm),
      (''itemWidth'', Num iw), (''itemHeight'', Num ih)]"

text \<open>
  The global \<^verbatim>\<open>state\<close> after the five \<^verbatim>\<open>parseFloat\<close> assignments that open
  \<^verbatim>\<open>commitChanges\<close>; app.js adds the field \<^verbatim>\<open>scrollToResult\<close>. The global
  \<^verbatim>\<open>results\<close> holds the result objects (a property that is not set is \<open>None\<close>).
\<close>

record state_part000 =
  documentWidth :: rat
  documentHeight :: rat
  documentMargin :: rat
  itemWidth :: rat
  itemHeight :: rat

record state = state_part000 +
  scrollToResult :: bool

record results =
  square :: "props option"
  landscape :: "props option"
  portrait :: "props option"

text \<open>
  What the function does to the outside, in order: a call of the optimizer with its
  argument, an \<^verbatim>\<open>alert\<close> of an optimization error, \<^verbatim>\<open>clearDocumentPreview()\<close>,
  \<^verbatim>\<open>generateDocumentPreview(result, identifier)\<close> and \<^verbatim>\<open>window.scrollTo\<close>. What the
  preview does with the document of the page is outside the model.
\<close>

datatype event =
    Optimize props
  | Alert error
  | ClearDocumentPreview
  | GenerateDocumentPreview props string
  | ScrollTo

definition itemsCount :: "props \<Rightarrow> rat" where
  "itemsCount r = toNumber (lookup r ''maxRows'') * toNumber (lookup r ''maxColumns'')"

text \<open>
  The result is the trace of events and the final \<^verbatim>\<open>results\<close>; the latter is \<open>None\<close>
  when a call of the optimizer never returns, and the trace then ends with that call.
\<close>

definition commitChanges :: "bool \<Rightarrow> state \<Rightarrow> results \<Rightarrow> event list \<times> results option" where
  "commitChanges useScroll st res =
     (let docWidth = documentWidth st;
          docHeight = documentHeight st;
          isDocumentSquare = (docWidth = docHeight)
      in
      if isDocumentSquare then
        (let arg = request docWidth docHeight (documentMargin st) (itemWidth st) (itemHeight st)
         in case optimizeStepAndRepeat arg of
              None \<Rightarrow> ([Optimize arg], None)
            | Some (Throw e _) \<Rightarrow> ([Optimize arg, Alert e, ClearDocumentPreview], Some res)
            | Some (Return r) \<Rightarrow>
                ([Optimize arg, ClearDocumentPreview, GenerateDocumentPreview r ''square''],
                 Some (res\<lparr>square := Some r\<rparr>)))
      else
        (let res1 = res\<lparr>landscape := Some [], portrait := Some []\<rparr>;
             (lowest, highest) =
               (if docWidth > docHeight then (docHeight, docWidth) else (docWidth, docHeight));
             argL = request highest lowest (documentMargin st) (itemWidth st) (itemHeight st);
             argP = request lowest highest (documentMargin st) (itemWidth st) (itemHeight st)
         in case optimizeStepAndRepeat argL of
              None \<Rightarrow> ([Optimize argL], None)
            | Some (Throw e _) \<Rightarrow> ([Optimize argL, Alert e, ClearDocumentPreview], Some res1)
            | Some (Return l) \<Rightarrow>
                (let res2 = res1\<lparr>landscape := Some l\<rparr>
                 in case optimizeStepAndRepeat argP of
                      None \<Rightarrow> ([Optimize argL, Optimize argP], None)
                    | Some (Throw e _) \<Rightarrow>
                        ([Optimize argL, Optimize argP, Alert e, ClearDocumentPreview], Some res2)
                    | Some (Return p) \<Rightarrow>
                        (let res3 = res2\<lparr>portrait := Some p\<rparr>;
                             portraitItemsCount = itemsCount p;
                             landscapeItemsCount = itemsCount l
                         in ([Optimize argL, Optimize argP, ClearDocumentPreview]
                             @ (if portraitItemsCount > landscapeItemsCount
                                then [GenerateDocumentPreview p ''portrait'']
                                else [GenerateDocumentPreview l ''landscape''])
                             @ (if useScroll \<and> scrollToResult st then [ScrollTo] else []),
                             Some res3)))))"

text \<open>The arguments of the optimizer calls, and the previews, of a trace.\<close>

fun optimizerCalls :: "event list \<Rightarrow> props list" where
  "optimizerCalls [] = []"
| "optimizerCalls (Optimize a # es) = a # optimizerCalls es"
| "optimizerCalls (_ # es) = optimizerCalls es"

fun previews :: "event list \<Rightarrow> (string \<times> props) list" where
  "previews [] = []"
| "previews (GenerateDocumentPreview r ident # es) = (ident, r) # previews es"
| "previews (_ # es) = previews es"

section \<open>commitChanges of part_000 (lines 434-501)\<close>

text \<open>
  The older variant has no \<^verbatim>\<open>try\<close>: an error of the optimizer leaves the function
  (\<open>Raised\<close>, with \<^verbatim>\<open>results\<close> as it is then). On a non-square document it renders both
  previews, the portrait one first, and makes no choice between them.
\<close>

datatype completion = Done results | Raised error results

definition commitChanges_part000 ::
  "state_part000 \<Rightarrow> results \<Rightarrow> event list \<times> completion option" where
  "commitChanges_part000 st res =
     (let docWidth = documentWidth st;
          docHeight = documentHeight st;
          isDocumentSquare = (docWidth = docHeight)
      in
      if isDocumentSquare then
        (let arg = request docWidth docHeight (documentMargin st) (itemWidth st) (itemHeight st)
         in case optimizeStepAndRepeat_part000 arg of
              None \<Rightarrow> ([Optimize arg], None)
            | Some (Throw e _) \<Rightarrow> ([Optimize arg], Some (Raised e res))
            | Some (Return r) \<Rightarrow>
                ([Optimize arg, ClearDocumentPreview, GenerateDocumentPreview r ''square''],
                 Some (Done (res\<lparr>square := Some r\<rparr>))))
      else
        (let res1 = res\<lparr>landscape := Some [], portrait := Some []\<rparr>;
             (lowest, highest) =
               (if docWidth > docHeight then (docHeight, docWidth) else (docWidth, docHeight));
             argL = request highest lowest (documentMargin st) (itemWidth st) (itemHeight st);
             argP = request lowest highest (documentMargin st) (itemWidth st) (itemHeight st)
         in case optimizeStepAndRepeat_part000 argL of
              None \<Rightarrow> ([Optimize argL], None)
            | Some (Throw e _) \<Rightarrow> ([Optimize argL], Some (Raised e res1))
            | Some (Return l) \<Rightarrow>
                (let res2 = res1\<lparr>landscape := Some l\<rparr>
                 in case optimizeStepAndRepeat_part000 argP of
                      None \<Rightarrow> ([Optimize argL, Optimize argP], None)
                    | Some (Throw e _) \<Rightarrow>
                        ([Optimize argL, Optimize argP], Some (Raised e res2))
                    | Some (Return p) \<Rightarrow>
                        (let res3 = res2\<lparr>portrait := Some p\<rparr>
                         in ([Optimize argL, Optimize argP, ClearDocumentPreview,
                              GenerateDocumentPreview p ''portrait'',
                              GenerateDocumentPreview l ''landscape''],
                             Some (Done res3))))))"

section \<open>Requests\<close>

text \<open>
  The request shape is closed: an object whose properties are among the five fields. The
  keys of an object are distinct. A field is missing when it is absent or \<^verbatim>\<open>null\<close>.
\<close>

definition isRequest :: "props \<Rightarrow> bool" where
  "isRequest ps \<longleftrightarrow>
     distinct (map fst ps) \<and>
     set (map fst ps) \<subseteq> {''documentWidth'', ''documentHeight'', ''documentMargin'',
                          ''itemWidth'', ''itemHeight''}"

definition missing :: "props \<Rightarrow> string \<Rightarrow> bool" where
  "missing ps k \<longleftrightarrow> lookup ps k = Undefined \<or> lookup ps k = Null"

text \<open>What the sanitising loop makes of one property that is not \<^verbatim>\<open>null\<close>.\<close>

definition normalize :: "val \<Rightarrow> val" where
  "normalize v = (if isNegative v then Num (toNumber v * (- 1)) else v)"

section \<open>The packing loops in closed form\<close>

text \<open>
  With a positive item extent the loop ends, after as many rounds as whole items fit
  behind the accumulator.
\<close>

lemma countFits_closed:
  "0 < w \<Longrightarrow> 0 \<le> W \<Longrightarrow> countFits 0 acc w W n = Some (n + nat \<lfloor>(W - acc) / w\<rfloor>)"
proof (induction "nat \<lfloor>(W - acc) / w\<rfloor>" arbitrary: acc n)
  case 0
  then have "(W - acc) / w < 1" by linarith
  with 0 have "acc + w > W" by (simp add: field_simps)
  with 0 show ?case by (subst countFits.simps) simp
next
  case (Suc k)
  then have "1 \<le> (W - acc) / w" by linarith
  with Suc have le: "acc + w \<le> W" by (simp add: field_simps)
  have eq: "(W - (acc + w)) / w = (W - acc) / w - 1" using Suc by (simp add: field_simps)
  then have k: "nat \<lfloor>(W - (acc + w)) / w\<rfloor> = k" using Suc by simp
  have "countFits 0 (acc + w) w W (n + 1) = Some (n + 1 + nat \<lfloor>(W - (acc + w)) / w\<rfloor>)"
    using Suc(1)[OF k[symmetric] Suc(3) Suc(4)] .
  with le Suc k show ?case by (subst countFits.simps) simp
qed

lemma countFitsStrict_closed:
  "0 < w \<Longrightarrow> 0 \<le> W \<Longrightarrow>
   countFitsStrict 0 acc w W n = Some (n + nat (\<lceil>(W - acc) / w\<rceil> - 1))"
proof (induction "nat (\<lceil>(W - acc) / w\<rceil> - 1)" arbitrary: acc n)
  case 0
  then have "(W - acc) / w \<le> 1" by linarith
  with 0 have "acc + w \<ge> W" by (simp add: field_simps)
  with 0 show ?case by (subst countFitsStrict.simps) simp
next
  case (Suc k)
  then have "1 < (W - acc) / w" by linarith
  with Suc have le: "acc + w < W" by (simp add: field_simps)
  have eq: "(W - (acc + w)) / w = (W - acc) / w - 1" using Suc by (simp add: field_simps)
  then have k: "nat (\<lceil>(W - (acc + w)) / w\<rceil> - 1) = k" using Suc by simp
  have "countFitsStrict 0 (acc + w) w W (n + 1)
          = Some (n + 1 + nat (\<lceil>(W - (acc + w)) / w\<rceil> - 1))"
    using Suc(1)[OF k[symmetric] Suc(3) Suc(4)] .
  with le Suc k show ?case by (subst countFitsStrict.simps) simp
qed

text \<open>With item extent 0 the accumulator never moves: the loop has no result.\<close>

lemma countFits_zero_item:
  assumes "countFits i acc w W n = Some m"
  shows "\<not> (w = 0 \<and> i \<le> W \<and> acc \<le> W)"
proof (rule countFits.raw_induct
         [where P = "\<lambda>i acc w W n m. \<not> (w = 0 \<and> i \<le> W \<and> acc \<le> W)" and y = m])
  fix f :: "rat \<Rightarrow> rat \<Rightarrow> rat \<Rightarrow> rat \<Rightarrow> nat \<Rightarrow> nat option"
    and i accum item doc :: rat and count y :: nat
  assume IH: "\<And>i accum item doc count y. f i accum item doc count = Some y \<Longrightarrow>
                \<not> (item = 0 \<and> i \<le> doc \<and> accum \<le> doc)"
    and eq: "(if i \<le> doc then if doc < accum + item then Some count
              else f i (accum + item) item doc (count + 1) else Some count) = Some y"
  show "\<not> (item = 0 \<and> i \<le> doc \<and> accum \<le> doc)"
  proof
    assume a: "item = 0 \<and> i \<le> doc \<and> accum \<le> doc"
    with eq have "f i accum item doc (count + 1) = Some y" by (auto split: if_splits)
    from IH[OF this] a show False by simp
  qed
qed (fact assms)

lemma countFits_diverges: "0 \<le> W \<Longrightarrow> countFits 0 0 0 W n = None"
  using countFits_zero_item[of 0 0 0 W n] by (cases "countFits 0 0 0 W n") auto

lemma floor_fit:
  fixes W w :: rat
  assumes "0 < w" and "0 \<le> W"
  shows "of_nat (nat \<lfloor>W / w\<rfloor>) * w \<le> W" and "W < (of_nat (nat \<lfloor>W / w\<rfloor>) + 1) * w"
proof -
  from assms have "0 \<le> \<lfloor>W / w\<rfloor>" by simp
  then have e: "(of_nat (nat \<lfloor>W / w\<rfloor>) :: rat) = of_int \<lfloor>W / w\<rfloor>" by simp
  have W: "W / w * w = W" using assms(1) by simp
  have "of_int \<lfloor>W / w\<rfloor> * w \<le> W / w * w"
    by (rule mult_right_mono) (use assms(1) in simp_all)
  then show "of_nat (nat \<lfloor>W / w\<rfloor>) * w \<le> W"
    unfolding e W .
  have "W / w < of_int \<lfloor>W / w\<rfloor> + 1" by linarith
  then have "W / w * w < (of_int \<lfloor>W / w\<rfloor> + 1) * w"
    by (rule mult_strict_right_mono) (rule assms(1))
  then show "W < (of_nat (nat \<lfloor>W / w\<rfloor>) + 1) * w"
    unfolding e W .
qed

section \<open>Reading and writing properties\<close>

lemma map_of_assign: "map_of (assign k v ps) = (map_of ps)(k \<mapsto> v)"
  by (induction ps) (auto simp: fun_eq_iff)

lemma lookup_assign: "lookup (assign k v ps) k' = (if k' = k then v else lookup ps k')"
  by (simp add: lookup_def map_of_assign)

lemma keys_assign: "fst ` set (assign k v ps) = insert k (fst ` set ps)"
  by (induction ps) force+

lemma distinct_assign: "distinct (map fst ps) \<Longrightarrow> distinct (map fst (assign k v ps))"
  by (induction ps) (auto simp: keys_assign)

lemma assign_append: "k \<notin> fst ` set ps \<Longrightarrow> assign k v ps = ps @ [(k, v)]"
  by (induction ps) auto

lemma assign_same: "map_of ps k = Some v \<Longrightarrow> assign k v ps = ps"
  by (induction ps) (auto split: if_splits)

lemma assign_twice: "assign k v (assign k v' ps) = assign k v ps"
  by (induction ps) auto

lemma in_set_lookup: "distinct (map fst ps) \<Longrightarrow> (k, v) \<in> set ps \<Longrightarrow> lookup ps k = v"
  by (simp add: lookup_def)

lemma lookup_in_set: "lookup ps k = v \<Longrightarrow> v \<noteq> Undefined \<Longrightarrow> (k, v) \<in> set ps"
  by (auto simp: lookup_def split: option.splits dest: map_of_SomeD)

lemma nullish_Null_iff: "nullish v Null = Null \<longleftrightarrow> v = Undefined \<or> v = Null"
  by (cases v) (simp_all add: nullish_def)

lemma nullish_Num_neq_Null: "nullish v (Num d) \<noteq> Null"
  by (cases v) (simp_all add: nullish_def)

lemma nullish_Num_ex: "\<exists>x. nullish v (Num d) = Num x"
  by (cases v) (simp_all add: nullish_def)

lemma not_missing_Num: "\<not> missing ps k \<Longrightarrow> \<exists>x. lookup ps k = Num x"
  by (cases "lookup ps k") (simp_all add: missing_def)

lemma normalize_Num: "normalize (Num x) = Num \<bar>x\<bar>"
  by (simp add: normalize_def abs_if)

section \<open>The checks before the loops\<close>

lemma lookup_applyDefaults:
  "lookup (applyDefaults ps) k =
     (if k = ''itemHeight'' then nullish (lookup ps ''itemHeight'') Null
      else if k = ''itemWidth'' then nullish (lookup ps ''itemWidth'') Null
      else if k = ''documentMargin'' then nullish (lookup ps ''documentMargin'') (Num (127 / 10))
      else if k = ''documentHeight'' then nullish (lookup ps ''documentHeight'') Null
      else if k = ''documentWidth'' then nullish (lookup ps ''documentWidth'') Null
      else lookup ps k)"
  by (simp add: applyDefaults_def Let_def lookup_assign)

lemma keys_applyDefaults:
  "fst ` set (applyDefaults ps) =
     fst ` set ps \<union> {''documentWidth'', ''documentHeight'', ''documentMargin'', ''itemWidth'',
                      ''itemHeight''}"
  by (auto simp: applyDefaults_def Let_def keys_assign)

lemma distinct_applyDefaults:
  "distinct (map fst ps) \<Longrightarrow> distinct (map fst (applyDefaults ps))"
  by (simp add: applyDefaults_def Let_def distinct_assign)

lemma lookup_keepRealDimensions:
  "lookup (keepRealDimensions ps) k =
     (if k = ''documentHeightReal'' then lookup ps ''documentHeight''
      else if k = ''documentWidthReal'' then lookup ps ''documentWidth''
      else lookup ps k)"
  by (simp add: keepRealDimensions_def Let_def lookup_assign)

text \<open>On a request the two retained dimensions are new properties, enumerated last.\<close>

lemma keepRealDimensions_request:
  assumes "isRequest ps"
  shows "keepRealDimensions (applyDefaults ps) =
           applyDefaults ps @ [(''documentWidthReal'', lookup (applyDefaults ps) ''documentWidth''),
                               (''documentHeightReal'', lookup (applyDefaults ps) ''documentHeight'')]"
proof -
  from assms have k: "fst ` set (applyDefaults ps) \<subseteq>
      {''documentWidth'', ''documentHeight'', ''documentMargin'', ''itemWidth'', ''itemHeight''}"
    unfolding keys_applyDefaults isRequest_def by auto
  then have 1: "''documentWidthReal'' \<notin> fst ` set (applyDefaults ps)" by auto
  from k have 2: "''documentHeightReal'' \<notin> fst ` set (applyDefaults ps)" by auto
  let ?p1 = "assign ''documentWidthReal'' (lookup (applyDefaults ps) ''documentWidth'')
               (applyDefaults ps)"
  have l: "lookup ?p1 ''documentHeight'' = lookup (applyDefaults ps) ''documentHeight''"
    by (simp add: lookup_assign)
  from 2 have 3: "''documentHeightReal'' \<notin> fst ` set ?p1" by (simp add: keys_assign)
  have "keepRealDimensions (applyDefaults ps)
          = assign ''documentHeightReal'' (lookup ?p1 ''documentHeight'') ?p1"
    by (simp add: keepRealDimensions_def Let_def)
  also have "\<dots> = ?p1 @ [(''documentHeightReal'', lookup (applyDefaults ps) ''documentHeight'')]"
    by (simp only: l assign_append[OF 3])
  finally show ?thesis by (simp add: assign_append[OF 1])
qed

text \<open>A \<^verbatim>\<open>null\<close> among the defaulted fields of a request is a missing field other than the margin.\<close>

lemma applyDefaults_null:
  assumes "isRequest ps" and "(k, Null) \<in> set (applyDefaults ps)"
  shows "(k = ''documentWidth'' \<or> k = ''documentHeight'' \<or> k = ''itemWidth'' \<or> k = ''itemHeight'')
           \<and> missing ps k"
proof -
  from assms(1) have d: "distinct (map fst (applyDefaults ps))"
    by (simp add: isRequest_def distinct_applyDefaults)
  from in_set_lookup[OF d assms(2)] have l: "lookup (applyDefaults ps) k = Null" .
  from assms(2) have "k \<in> fst ` set (applyDefaults ps)" by force
  with assms(1) have "k = ''documentWidth'' \<or> k = ''documentHeight'' \<or> k = ''documentMargin''
      \<or> k = ''itemWidth'' \<or> k = ''itemHeight''"
    unfolding keys_applyDefaults isRequest_def by auto
  then consider "k = ''documentWidth''" | "k = ''documentHeight''" | "k = ''documentMargin''"
    | "k = ''itemWidth''" | "k = ''itemHeight''" by argo
  then show ?thesis
  proof cases
    case 1 with l show ?thesis by (simp add: lookup_applyDefaults nullish_Null_iff missing_def)
  next
    case 2 with l show ?thesis by (simp add: lookup_applyDefaults nullish_Null_iff missing_def)
  next
    case 3 with l show ?thesis by (simp add: lookup_applyDefaults nullish_Num_neq_Null)
  next
    case 4 with l show ?thesis by (simp add: lookup_applyDefaults nullish_Null_iff missing_def)
  next
    case 5 with l show ?thesis by (simp add: lookup_applyDefaults nullish_Null_iff missing_def)
  qed
qed

lemma sanitize_ok:
  "Null \<notin> snd ` set ps \<Longrightarrow> sanitize ps = (None, map (\<lambda>(k, v). (k, normalize v)) ps)"
  by (induction ps) (auto simp: normalize_def)

lemma sanitize_None: "sanitize ps = (None, q) \<Longrightarrow> Null \<notin> snd ` set ps"
  by (induction ps arbitrary: q) (auto split: if_splits prod.splits)

lemma sanitize_first_null:
  "Null \<in> snd ` set ps \<Longrightarrow>
   \<exists>k q. sanitize (ps @ rest) = (Some (PropertyIsNull k), q) \<and> (k, Null) \<in> set ps"
  by (induction ps) (auto split: prod.splits)

lemma lookup_map_normalize:
  "lookup (map (\<lambda>(k, v). (k, normalize v)) ps) k = normalize (lookup ps k)"
  by (induction ps) (auto simp: lookup_def normalize_def)

lemma applyMargin_numeric:
  assumes "lookup q ''documentWidth'' = Num w" and "lookup q ''documentHeight'' = Num h"
    and "lookup q ''documentMargin'' = Num m"
  shows "\<exists>p. applyMargin q =
            (if m \<noteq> 0 \<and> w - m * 2 \<le> 0 then Some TooMuchMarginWidth
             else if m \<noteq> 0 \<and> h - m * 2 \<le> 0 then Some TooMuchMarginHeight
             else None, p)
          \<and> (\<forall>k. lookup p k =
                 (if k = ''documentWidth'' then Num (w - m * 2)
                  else if k = ''documentHeight'' then Num (h - m * 2)
                  else lookup q k))"
proof (cases "m = 0")
  case True
  with assms show ?thesis by (simp add: applyMargin_def)
next
  case False
  with assms show ?thesis by (simp add: applyMargin_def Let_def lookup_assign)
qed

text \<open>
  Every conversion to a number in the optimizer is of a field that is a number by then:
  past the sanitising loop the five fields are numbers, and the margin step keeps them so.
\<close>

lemma validate_numeric:
  assumes "validate ps = (None, p)"
  shows "\<exists>w h m iw ih. lookup p ''documentWidth'' = Num w \<and> lookup p ''documentHeight'' = Num h
           \<and> lookup p ''documentMargin'' = Num m \<and> lookup p ''itemWidth'' = Num iw
           \<and> lookup p ''itemHeight'' = Num ih"
proof -
  let ?r = "keepRealDimensions (applyDefaults ps)"
  let ?q = "map (\<lambda>(k, v). (k, normalize v)) ?r"
  obtain e q where s: "sanitize ?r = (e, q)" by (cases "sanitize ?r")
  with assms have e: "e = None" by (cases e) (simp_all add: validate_def)
  from sanitize_None[OF s[unfolded e]] have nn: "Null \<notin> snd ` set ?r" .
  from sanitize_ok[OF nn] s e have q: "q = ?q" by simp
  from s e q assms have m: "applyMargin ?q = (None, p)" by (simp add: validate_def)
  have field: "\<exists>x. nullish (lookup ps k) Null = Num x" if "lookup ?r k = nullish (lookup ps k) Null" for k
  proof (cases "nullish (lookup ps k) Null")
    case Undefined
    then show ?thesis by (cases "lookup ps k") (simp_all add: nullish_def)
  next
    case Null
    with that have "(k, Null) \<in> set ?r" by (intro lookup_in_set) simp_all
    with nn show ?thesis by force
  next
    case (Num x)
    then show ?thesis by simp
  qed
  have "lookup ?r ''documentWidth'' = nullish (lookup ps ''documentWidth'') Null"
    by (simp add: lookup_keepRealDimensions lookup_applyDefaults)
  from field[OF this] obtain dw where dw: "nullish (lookup ps ''documentWidth'') Null = Num dw" ..
  have "lookup ?r ''documentHeight'' = nullish (lookup ps ''documentHeight'') Null"
    by (simp add: lookup_keepRealDimensions lookup_applyDefaults)
  from field[OF this] obtain dh where dh: "nullish (lookup ps ''documentHeight'') Null = Num dh" ..
  have "lookup ?r ''itemWidth'' = nullish (lookup ps ''itemWidth'') Null"
    by (simp add: lookup_keepRealDimensions lookup_applyDefaults)
  from field[OF this] obtain iw where iw: "nullish (lookup ps ''itemWidth'') Null = Num iw" ..
  have "lookup ?r ''itemHeight'' = nullish (lookup ps ''itemHeight'') Null"
    by (simp add: lookup_keepRealDimensions lookup_applyDefaults)
  from field[OF this] obtain ih where ih: "nullish (lookup ps ''itemHeight'') Null = Num ih" ..
  from nullish_Num_ex obtain dm where
    dm: "nullish (lookup ps ''documentMargin'') (Num (127 / 10)) = Num dm" by blast
  have l: "lookup ?q ''documentWidth'' = Num \<bar>dw\<bar>" "lookup ?q ''documentHeight'' = Num \<bar>dh\<bar>"
    "lookup ?q ''documentMargin'' = Num \<bar>dm\<bar>" "lookup ?q ''itemWidth'' = Num \<bar>iw\<bar>"
    "lookup ?q ''itemHeight'' = Num \<bar>ih\<bar>"
    by (simp_all add: lookup_map_normalize lookup_keepRealDimensions lookup_applyDefaults
        normalize_Num dw dh dm iw ih)
  from applyMargin_numeric[OF l(1) l(2) l(3)] m l(3-5) show ?thesis by auto
qed

lemma prepared_null_free:
  assumes "isRequest ps"
    and "\<not> missing ps ''documentWidth''" "\<not> missing ps ''documentHeight''"
    and "\<not> missing ps ''itemWidth''" "\<not> missing ps ''itemHeight''"
  shows "Null \<notin> snd ` set (keepRealDimensions (applyDefaults ps))"
proof
  assume "Null \<in> snd ` set (keepRealDimensions (applyDefaults ps))"
  then obtain k where "(k, Null) \<in> set (keepRealDimensions (applyDefaults ps))" by force
  then consider "(k, Null) \<in> set (applyDefaults ps)"
    | "lookup (applyDefaults ps) ''documentWidth'' = Null"
    | "lookup (applyDefaults ps) ''documentHeight'' = Null"
    unfolding keepRealDimensions_request[OF assms(1)] by auto
  then show False
  proof cases
    case 1
    from applyDefaults_null[OF assms(1) this] assms(2-5) show False by auto
  next
    case 2
    with assms(2) show False by (simp add: lookup_applyDefaults nullish_Null_iff missing_def)
  next
    case 3
    with assms(3) show False by (simp add: lookup_applyDefaults nullish_Null_iff missing_def)
  qed
qed

lemma validate_request:
  assumes "isRequest ps"
    and "lookup ps ''documentWidth'' = Num dw" and "lookup ps ''documentHeight'' = Num dh"
    and "lookup ps ''itemWidth'' = Num iw" and "lookup ps ''itemHeight'' = Num ih"
    and "nullish (lookup ps ''documentMargin'') (Num (127 / 10)) = Num dm"
  shows "\<exists>p. validate ps =
            (if dm \<noteq> 0 \<and> \<bar>dw\<bar> - \<bar>dm\<bar> * 2 \<le> 0 then Some TooMuchMarginWidth
             else if dm \<noteq> 0 \<and> \<bar>dh\<bar> - \<bar>dm\<bar> * 2 \<le> 0 then Some TooMuchMarginHeight
             else None, p)
          \<and> lookup p ''documentWidth'' = Num (\<bar>dw\<bar> - \<bar>dm\<bar> * 2)
          \<and> lookup p ''documentHeight'' = Num (\<bar>dh\<bar> - \<bar>dm\<bar> * 2)
          \<and> lookup p ''documentMargin'' = Num \<bar>dm\<bar>
          \<and> lookup p ''itemWidth'' = Num \<bar>iw\<bar>
          \<and> lookup p ''itemHeight'' = Num \<bar>ih\<bar>
          \<and> lookup p ''documentWidthReal'' = Num \<bar>dw\<bar>
          \<and> lookup p ''documentHeightReal'' = Num \<bar>dh\<bar>"
proof -
  let ?q = "map (\<lambda>(k, v). (k, normalize v)) (keepRealDimensions (applyDefaults ps))"
  from assms(2-5) have nm: "\<not> missing ps ''documentWidth''" "\<not> missing ps ''documentHeight''"
    "\<not> missing ps ''itemWidth''" "\<not> missing ps ''itemHeight''"
    by (simp_all add: missing_def)
  have s: "sanitize (keepRealDimensions (applyDefaults ps)) = (None, ?q)"
    by (rule sanitize_ok[OF prepared_null_free[OF assms(1) nm]])
  then have v: "validate ps = applyMargin ?q" by (simp add: validate_def)
  have q: "lookup ?q ''documentWidth'' = Num \<bar>dw\<bar>" "lookup ?q ''documentHeight'' = Num \<bar>dh\<bar>"
    "lookup ?q ''documentMargin'' = Num \<bar>dm\<bar>" "lookup ?q ''itemWidth'' = Num \<bar>iw\<bar>"
    "lookup ?q ''itemHeight'' = Num \<bar>ih\<bar>" "lookup ?q ''documentWidthReal'' = Num \<bar>dw\<bar>"
    "lookup ?q ''documentHeightReal'' = Num \<bar>dh\<bar>"
    using assms(2-6)
    by (simp_all add: lookup_map_normalize lookup_keepRealDimensions lookup_applyDefaults
        normalize_Num nullish_def)
  from applyMargin_numeric[OF q(1) q(2) q(3)] obtain p where
    p: "applyMargin ?q =
            (if \<bar>dm\<bar> \<noteq> 0 \<and> \<bar>dw\<bar> - \<bar>dm\<bar> * 2 \<le> 0 then Some TooMuchMarginWidth
             else if \<bar>dm\<bar> \<noteq> 0 \<and> \<bar>dh\<bar> - \<bar>dm\<bar> * 2 \<le> 0 then Some TooMuchMarginHeight
             else None, p)"
    and l: "\<And>k. lookup p k =
                 (if k = ''documentWidth'' then Num (\<bar>dw\<bar> - \<bar>dm\<bar> * 2)
                  else if k = ''documentHeight'' then Num (\<bar>dh\<bar> - \<bar>dm\<bar> * 2)
                  else lookup ?q k)" by blast
  show ?thesis
    apply (rule exI[of _ p])
    apply (simp only: v p l q)
    apply simp
    done
qed

text \<open>A missing field other than the margin stops the sanitising loop at a missing field.\<close>

lemma validate_missing:
  assumes "isRequest ps"
    and "missing ps ''documentWidth'' \<or> missing ps ''documentHeight''
           \<or> missing ps ''itemWidth'' \<or> missing ps ''itemHeight''"
  shows "\<exists>k q. validate ps = (Some (PropertyIsNull k), q)
           \<and> (k = ''documentWidth'' \<or> k = ''documentHeight'' \<or> k = ''itemWidth''
                \<or> k = ''itemHeight'')
           \<and> missing ps k"
proof -
  from assms(2) obtain f where f: "missing ps f"
    and ff: "f = ''documentWidth'' \<or> f = ''documentHeight'' \<or> f = ''itemWidth'' \<or> f = ''itemHeight''"
    by blast
  from f ff have "lookup (applyDefaults ps) f = Null"
    by (auto simp: lookup_applyDefaults nullish_Null_iff missing_def)
  then have "(f, Null) \<in> set (applyDefaults ps)" by (rule lookup_in_set) simp
  then have "Null \<in> snd ` set (applyDefaults ps)" by force
  from sanitize_first_null[OF this] obtain k q where
    s: "sanitize (keepRealDimensions (applyDefaults ps)) = (Some (PropertyIsNull k), q)"
    and k: "(k, Null) \<in> set (applyDefaults ps)"
    unfolding keepRealDimensions_request[OF assms(1)] by blast
  from s have "validate ps = (Some (PropertyIsNull k), q)" by (simp add: validate_def)
  with applyDefaults_null[OF assms(1) k] show ?thesis by blast
qed

section \<open>The optimizer on a request that passes the checks\<close>

lemma optimize_request:
  assumes "isRequest ps"
    and "lookup ps ''documentWidth'' = Num dw" and "lookup ps ''documentHeight'' = Num dh"
    and "lookup ps ''itemWidth'' = Num iw" and "lookup ps ''itemHeight'' = Num ih"
    and "nullish (lookup ps ''documentMargin'') (Num (127 / 10)) = Num dm"
    and "dm = 0 \<or> 0 < \<bar>dw\<bar> - \<bar>dm\<bar> * 2 \<and> 0 < \<bar>dh\<bar> - \<bar>dm\<bar> * 2"
    and "iw \<noteq> 0" and "ih \<noteq> 0"
  shows "\<exists>p. optimizeStepAndRepeat ps = Some (Return p)
          \<and> lookup p ''maxColumns'' = Num (of_nat (nat \<lfloor>(\<bar>dw\<bar> - \<bar>dm\<bar> * 2) / \<bar>iw\<bar>\<rfloor>))
          \<and> lookup p ''maxRows'' = Num (of_nat (nat \<lfloor>(\<bar>dh\<bar> - \<bar>dm\<bar> * 2) / \<bar>ih\<bar>\<rfloor>))
          \<and> lookup p ''documentWidth'' = Num (\<bar>dw\<bar> - \<bar>dm\<bar> * 2)
          \<and> lookup p ''documentHeight'' = Num (\<bar>dh\<bar> - \<bar>dm\<bar> * 2)
          \<and> lookup p ''documentMargin'' = Num \<bar>dm\<bar>
          \<and> lookup p ''itemWidth'' = Num \<bar>iw\<bar>
          \<and> lookup p ''itemHeight'' = Num \<bar>ih\<bar>
          \<and> lookup p ''documentWidthReal'' = Num \<bar>dw\<bar>
          \<and> lookup p ''documentHeightReal'' = Num \<bar>dh\<bar>"
proof -
  from validate_request[OF assms(1-6)] assms(7) obtain p0 where
    v: "validate ps = (None, p0)"
    and l: "lookup p0 ''documentWidth'' = Num (\<bar>dw\<bar> - \<bar>dm\<bar> * 2)"
      "lookup p0 ''documentHeight'' = Num (\<bar>dh\<bar> - \<bar>dm\<bar> * 2)"
      "lookup p0 ''documentMargin'' = Num \<bar>dm\<bar>"
      "lookup p0 ''itemWidth'' = Num \<bar>iw\<bar>"
      "lookup p0 ''itemHeight'' = Num \<bar>ih\<bar>"
      "lookup p0 ''documentWidthReal'' = Num \<bar>dw\<bar>"
      "lookup p0 ''documentHeightReal'' = Num \<bar>dh\<bar>"
    by auto
  from assms(7) have W: "0 \<le> \<bar>dw\<bar> - \<bar>dm\<bar> * 2" and H: "0 \<le> \<bar>dh\<bar> - \<bar>dm\<bar> * 2" by auto
  from assms(8,9) have pos: "0 < \<bar>iw\<bar>" "0 < \<bar>ih\<bar>" by simp_all
  show ?thesis
    by (simp add: optimizeStepAndRepeat_def v l countFits_closed[OF pos(1) W]
        countFits_closed[OF pos(2) H] lookup_assign)
qed

lemma optimize_part000_request:
  assumes "isRequest ps"
    and "lookup ps ''documentWidth'' = Num dw" and "lookup ps ''documentHeight'' = Num dh"
    and "lookup ps ''itemWidth'' = Num iw" and "lookup ps ''itemHeight'' = Num ih"
    and "nullish (lookup ps ''documentMargin'') (Num (127 / 10)) = Num dm"
    and "dm = 0 \<or> 0 < \<bar>dw\<bar> - \<bar>dm\<bar> * 2 \<and> 0 < \<bar>dh\<bar> - \<bar>dm\<bar> * 2"
    and "iw \<noteq> 0" and "ih \<noteq> 0"
  shows "\<exists>p. optimizeStepAndRepeat_part000 ps = Some (Return p)
          \<and> lookup p ''maxColumns'' = Num (of_nat (nat \<lfloor>(\<bar>dw\<bar> - \<bar>dm\<bar> * 2) / \<bar>iw\<bar>\<rfloor>))
          \<and> lookup p ''maxRows'' = Num (of_nat (nat (\<lceil>(\<bar>dh\<bar> - \<bar>dm\<bar> * 2) / \<bar>ih\<bar>\<rceil> - 1)))
          \<and> lookup p ''documentWidth'' = Num (\<bar>dw\<bar> - \<bar>dm\<bar> * 2)
          \<and> lookup p ''documentHeight'' = Num (\<bar>dh\<bar> - \<bar>dm\<bar> * 2)
          \<and> lookup p ''documentMargin'' = Num \<bar>dm\<bar>
          \<and> lookup p ''itemWidth'' = Num \<bar>iw\<bar>
          \<and> lookup p ''itemHeight'' = Num \<bar>ih\<bar>
          \<and> lookup p ''documentWidthReal'' = Num \<bar>dw\<bar>
          \<and> lookup p ''documentHeightReal'' = Num \<bar>dh\<bar>"
proof -
  from validate_request[OF assms(1-6)] assms(7) obtain p0 where
    v: "validate ps = (None, p0)"
    and l: "lookup p0 ''documentWidth'' = Num (\<bar>dw\<bar> - \<bar>dm\<bar> * 2)"
      "lookup p0 ''documentHeight'' = Num (\<bar>dh\<bar> - \<bar>dm\<bar> * 2)"
      "lookup p0 ''documentMargin'' = Num \<bar>dm\<bar>"
      "lookup p0 ''itemWidth'' = Num \<bar>iw\<bar>"
      "lookup p0 ''itemHeight'' = Num \<bar>ih\<bar>"
      "lookup p0 ''documentWidthReal'' = Num \<bar>dw\<bar>"
      "lookup p0 ''documentHeightReal'' = Num \<bar>dh\<bar>"
    by auto
  from assms(7) have W: "0 \<le> \<bar>dw\<bar> - \<bar>dm\<bar> * 2" and H: "0 \<le> \<bar>dh\<bar> - \<bar>dm\<bar> * 2" by auto
  from assms(8,9) have pos: "0 < \<bar>iw\<bar>" "0 < \<bar>ih\<bar>" by simp_all
  show ?thesis
    by (simp add: optimizeStepAndRepeat_part000_def v l countFits_closed[OF pos(1) W]
        countFitsStrict_closed[OF pos(2) H] lookup_assign)
qed

text \<open>With an item extent of 0 a request that passes the checks never leaves the loops.\<close>

lemma optimize_zero_item:
  assumes "validate ps = (None, p)"
    and "lookup ps ''itemWidth'' = Num 0 \<or> lookup ps ''itemHeight'' = Num 0"
    and "isRequest ps"
  shows "optimizeStepAndRepeat ps = None"
proof -
  have nm: "\<not> (missing ps ''documentWidth'' \<or> missing ps ''documentHeight''
           \<or> missing ps ''itemWidth'' \<or> missing ps ''itemHeight'')"
  proof
    assume "missing ps ''documentWidth'' \<or> missing ps ''documentHeight''
           \<or> missing ps ''itemWidth'' \<or> missing ps ''itemHeight''"
    from validate_missing[OF assms(3) this] assms(1) show False by auto
  qed
  then obtain dw dh iw ih where f: "lookup ps ''documentWidth'' = Num dw"
    "lookup ps ''documentHeight'' = Num dh" "lookup ps ''itemWidth'' = Num iw"
    "lookup ps ''itemHeight'' = Num ih"
    by (meson not_missing_Num)
  obtain dm where dm: "nullish (lookup ps ''documentMargin'') (Num (127 / 10)) = Num dm"
    using nullish_Num_ex by blast
  from validate_request[OF assms(3) f dm] assms(1)
  have ok: "\<not> (dm \<noteq> 0 \<and> \<bar>dw\<bar> - \<bar>dm\<bar> * 2 \<le> 0)" "\<not> (dm \<noteq> 0 \<and> \<bar>dh\<bar> - \<bar>dm\<bar> * 2 \<le> 0)"
    and l: "lookup p ''documentWidth'' = Num (\<bar>dw\<bar> - \<bar>dm\<bar> * 2)"
      "lookup p ''documentHeight'' = Num (\<bar>dh\<bar> - \<bar>dm\<bar> * 2)"
      "lookup p ''itemWidth'' = Num \<bar>iw\<bar>" "lookup p ''itemHeight'' = Num \<bar>ih\<bar>"
    by (auto split: if_splits)
  from ok have W: "0 \<le> \<bar>dw\<bar> - \<bar>dm\<bar> * 2" and H: "0 \<le> \<bar>dh\<bar> - \<bar>dm\<bar> * 2" by auto
  show ?thesis
  proof (cases "iw = 0")
    case True
    then show ?thesis
      by (simp add: optimizeStepAndRepeat_def assms(1) l countFits_diverges[OF W])
  next
    case False
    with assms(2) f have ih: "ih = 0" by simp
    from False have "0 < \<bar>iw\<bar>" by simp
    from countFits_closed[OF this W] ih show ?thesis
      by (simp add: optimizeStepAndRepeat_def assms(1) l countFits_diverges[OF H])
  qed
qed

section \<open>Concrete requests\<close>

lemma request_isRequest: "isRequest (request dw dh dm iw ih)"
  by (simp add: isRequest_def request_def)

lemma lookup_request:
  "lookup (request dw dh dm iw ih) ''documentWidth'' = Num dw"
  "lookup (request dw dh dm iw ih) ''documentHeight'' = Num dh"
  "lookup (request dw dh dm iw ih) ''documentMargin'' = Num dm"
  "lookup (request dw dh dm iw ih) ''itemWidth'' = Num iw"
  "lookup (request dw dh dm iw ih) ''itemHeight'' = Num ih"
  by (simp_all add: lookup_def request_def)

lemmas eval_defs = validate_def applyDefaults_def keepRealDimensions_def request_def
  lookup_def nullish_def applyMargin_def Let_def

section \<open>Maximal packing\<close>

text \<open>
  In app.js a request that passes the checks gets the maximal packing on both axes: the
  columns fit in the usable width and one more does not, and likewise the rows.
\<close>

lemma packing_maximal:
  assumes "isRequest ps"
    and "lookup ps ''documentWidth'' = Num dw" and "lookup ps ''documentHeight'' = Num dh"
    and "lookup ps ''documentMargin'' = Num dm"
    and "lookup ps ''itemWidth'' = Num iw" and "lookup ps ''itemHeight'' = Num ih"
    and "0 < iw" and "0 < ih"
    and "0 < \<bar>dw\<bar> - \<bar>dm\<bar> * 2" and "0 < \<bar>dh\<bar> - \<bar>dm\<bar> * 2"
  shows "\<exists>p c r. optimizeStepAndRepeat ps = Some (Return p)
           \<and> lookup p ''maxColumns'' = Num (of_nat c) \<and> lookup p ''maxRows'' = Num (of_nat r)
           \<and> of_nat c * toNumber (lookup p ''itemWidth'') \<le> toNumber (lookup p ''documentWidth'')
           \<and> toNumber (lookup p ''documentWidth'') < (of_nat c + 1) * toNumber (lookup p ''itemWidth'')
           \<and> of_nat r * toNumber (lookup p ''itemHeight'') \<le> toNumber (lookup p ''documentHeight'')
           \<and> toNumber (lookup p ''documentHeight'') < (of_nat r + 1) * toNumber (lookup p ''itemHeight'')"
proof -
  from assms(4) have m: "nullish (lookup ps ''documentMargin'') (Num (127 / 10)) = Num dm"
    by (simp add: nullish_def)
  from assms(7-10) have ok: "dm = 0 \<or> 0 < \<bar>dw\<bar> - \<bar>dm\<bar> * 2 \<and> 0 < \<bar>dh\<bar> - \<bar>dm\<bar> * 2"
    and nz: "iw \<noteq> 0" "ih \<noteq> 0" by simp_all
  from optimize_request[OF assms(1-3) assms(5,6) m ok nz] obtain p where
    p: "optimizeStepAndRepeat ps = Some (Return p)"
    "lookup p ''maxColumns'' = Num (of_nat (nat \<lfloor>(\<bar>dw\<bar> - \<bar>dm\<bar> * 2) / \<bar>iw\<bar>\<rfloor>))"
    "lookup p ''maxRows'' = Num (of_nat (nat \<lfloor>(\<bar>dh\<bar> - \<bar>dm\<bar> * 2) / \<bar>ih\<bar>\<rfloor>))"
    "lookup p ''documentWidth'' = Num (\<bar>dw\<bar> - \<bar>dm\<bar> * 2)"
    "lookup p ''documentHeight'' = Num (\<bar>dh\<bar> - \<bar>dm\<bar> * 2)"
    "lookup p ''itemWidth'' = Num \<bar>iw\<bar>" "lookup p ''itemHeight'' = Num \<bar>ih\<bar>"
    by (elim exE conjE)
  from assms(7,9) have w: "0 < \<bar>iw\<bar>" "0 \<le> \<bar>dw\<bar> - \<bar>dm\<bar> * 2" by simp_all
  from assms(8,10) have h: "0 < \<bar>ih\<bar>" "0 \<le> \<bar>dh\<bar> - \<bar>dm\<bar> * 2" by simp_all
  have "of_nat (nat \<lfloor>(\<bar>dw\<bar> - \<bar>dm\<bar> * 2) / \<bar>iw\<bar>\<rfloor>) * toNumber (lookup p ''itemWidth'')
          \<le> toNumber (lookup p ''documentWidth'')"
    and "toNumber (lookup p ''documentWidth'')
          < (of_nat (nat \<lfloor>(\<bar>dw\<bar> - \<bar>dm\<bar> * 2) / \<bar>iw\<bar>\<rfloor>) + 1) * toNumber (lookup p ''itemWidth'')"
    and "of_nat (nat \<lfloor>(\<bar>dh\<bar> - \<bar>dm\<bar> * 2) / \<bar>ih\<bar>\<rfloor>) * toNumber (lookup p ''itemHeight'')
          \<le> toNumber (lookup p ''documentHeight'')"
    and "toNumber (lookup p ''documentHeight'')
          < (of_nat (nat \<lfloor>(\<bar>dh\<bar> - \<bar>dm\<bar> * 2) / \<bar>ih\<bar>\<rfloor>) + 1) * toNumber (lookup p ''itemHeight'')"
    unfolding p(4-7) toNumber.simps by (rule floor_fit[OF w] floor_fit[OF h])+
  with p(1-3) show ?thesis by (intro exI conjI)
qed

text \<open>
  C1: on every valid request the packing is maximal on both axes, an exact edge-aligned
  fit included, in both source variants. The row loop of part_000 breaks on
  \<^verbatim>\<open>accum + itemHeight >= documentHeight\<close>, so it does not count an exact fit: on a 100 by
  100 document with no margin and items of 50 by 50 it finds 2 columns but only 1 row,
  although \<open>(1 + 1) * 50 \<le> 100\<close>.
\<close>

theorem C1_part000_exact_fit_row_not_counted:
  "optimizeStepAndRepeat_part000 (request 100 100 0 50 50) =
     Some (Return [(''documentWidth'', Num 100), (''documentHeight'', Num 100),
                   (''documentMargin'', Num 0), (''itemWidth'', Num 50), (''itemHeight'', Num 50),
                   (''documentWidthReal'', Num 100), (''documentHeightReal'', Num 100),
                   (''maxRows'', Num 1), (''maxColumns'', Num 2)])"
  by (simp add: optimizeStepAndRepeat_part000_def eval_defs countFits.simps countFitsStrict.simps)

text \<open>The same request in app.js: 2 columns and 2 rows.\<close>

lemma appjs_exact_fit_counted:
  "optimizeStepAndRepeat (request 100 100 0 50 50) =
     Some (Return [(''documentWidth'', Num 100), (''documentHeight'', Num 100),
                   (''documentMargin'', Num 0), (''itemWidth'', Num 50), (''itemHeight'', Num 50),
                   (''documentWidthReal'', Num 100), (''documentHeightReal'', Num 100),
                   (''maxRows'', Num 2), (''maxColumns'', Num 2)])"
  by (simp add: optimizeStepAndRepeat_def eval_defs countFits.simps)

section \<open>Item size zero\<close>

text \<open>
  C2: a request with an item dimension of zero should fail with an explicit error before
  any packing loop runs. The optimizer has no such check. With a 100 by 100 document, no
  margin and items of 0 by 10 the checks pass and the column loop never ends: the call
  neither throws nor returns. The page rejects a zero only in the handler of the Enter
  key, for the field that was edited (app.js lines 478-484); \<^verbatim>\<open>commitChanges\<close> reads
  all five fields again (lines 534-538) and passes them on unchecked.
\<close>

theorem C2_zero_item_width_no_error:
  "optimizeStepAndRepeat (request 100 100 0 0 10) = None"
  by (rule optimize_zero_item[where p = "[(''documentWidth'', Num 100), (''documentHeight'', Num 100),
                   (''documentMargin'', Num 0), (''itemWidth'', Num 0), (''itemHeight'', Num 10),
                   (''documentWidthReal'', Num 100), (''documentHeightReal'', Num 100)]"])
     (simp_all add: eval_defs isRequest_def)

text \<open>
  The older variant has the same column loop and hangs on the same request.
\<close>

lemma part000_zero_item_width_no_error:
  "optimizeStepAndRepeat_part000 (request 100 100 0 0 10) = None"
  by (simp add: optimizeStepAndRepeat_part000_def eval_defs countFits_diverges)

text \<open>
  In app.js this is so for every request in which itemWidth or itemHeight is zero: the
  call never returns a result, the only errors are those of the checks before the loops,
  and when these pass a packing loop runs forever.
\<close>

lemma zero_item_never_returns:
  assumes "isRequest ps"
    and "lookup ps ''itemWidth'' = Num 0 \<or> lookup ps ''itemHeight'' = Num 0"
  shows "optimizeStepAndRepeat ps =
           (case validate ps of (Some e, q) \<Rightarrow> Some (Throw e q) | (None, q) \<Rightarrow> None)
         \<and> (\<forall>p. optimizeStepAndRepeat ps \<noteq> Some (Return p))"
proof -
  obtain e q where v: "validate ps = (e, q)" by (cases "validate ps")
  show ?thesis
  proof (cases e)
    case None
    with v optimize_zero_item[OF _ assms(2) assms(1)] show ?thesis by simp
  next
    case (Some err)
    with v show ?thesis by (simp add: optimizeStepAndRepeat_def)
  qed
qed

section \<open>Too much margin\<close>

text \<open>
  C6: for every request (the four dimensions present) with a nonzero margin, if the
  width less twice the margin is at most 0 the optimizer throws the margin error of the
  width, if only the height less twice the margin is at most 0 it throws that of the
  height, and it never returns a result whose usable width or height is zero or negative.
  All values are taken by magnitude, as the sanitising loop leaves them.
\<close>

theorem C6_margin_exceeds_dimension:
  assumes "isRequest ps"
    and "lookup ps ''documentWidth'' = Num dw" and "lookup ps ''documentHeight'' = Num dh"
    and "lookup ps ''itemWidth'' = Num iw" and "lookup ps ''itemHeight'' = Num ih"
    and "lookup ps ''documentMargin'' = Num dm" and "dm \<noteq> 0"
  shows "(\<bar>dw\<bar> - \<bar>dm\<bar> * 2 \<le> 0 \<longrightarrow>
            (\<exists>q. optimizeStepAndRepeat ps = Some (Throw TooMuchMarginWidth q)))
         \<and> (0 < \<bar>dw\<bar> - \<bar>dm\<bar> * 2 \<and> \<bar>dh\<bar> - \<bar>dm\<bar> * 2 \<le> 0 \<longrightarrow>
            (\<exists>q. optimizeStepAndRepeat ps = Some (Throw TooMuchMarginHeight q)))
         \<and> (\<forall>p. optimizeStepAndRepeat ps = Some (Return p) \<longrightarrow>
              0 < toNumber (lookup p ''documentWidth'')
              \<and> 0 < toNumber (lookup p ''documentHeight''))"
proof -
  from assms(6) have m: "nullish (lookup ps ''documentMargin'') (Num (127 / 10)) = Num dm"
    by (simp add: nullish_def)
  from validate_request[OF assms(1-5) m] obtain q where
    v: "validate ps =
            (if dm \<noteq> 0 \<and> \<bar>dw\<bar> - \<bar>dm\<bar> * 2 \<le> 0 then Some TooMuchMarginWidth
             else if dm \<noteq> 0 \<and> \<bar>dh\<bar> - \<bar>dm\<bar> * 2 \<le> 0 then Some TooMuchMarginHeight
             else None, q)"
    and l: "lookup q ''documentWidth'' = Num (\<bar>dw\<bar> - \<bar>dm\<bar> * 2)"
      "lookup q ''documentHeight'' = Num (\<bar>dh\<bar> - \<bar>dm\<bar> * 2)"
    by (elim exE conjE)
  have 1: "\<exists>q. optimizeStepAndRepeat ps = Some (Throw TooMuchMarginWidth q)"
    if "\<bar>dw\<bar> - \<bar>dm\<bar> * 2 \<le> 0"
    using that assms(7) v by (simp add: optimizeStepAndRepeat_def)
  have 2: "\<exists>q. optimizeStepAndRepeat ps = Some (Throw TooMuchMarginHeight q)"
    if "0 < \<bar>dw\<bar> - \<bar>dm\<bar> * 2" "\<bar>dh\<bar> - \<bar>dm\<bar> * 2 \<le> 0"
    using that assms(7) v by (simp add: optimizeStepAndRepeat_def)
  have 3: "0 < toNumber (lookup p ''documentWidth'') \<and> 0 < toNumber (lookup p ''documentHeight'')"
    if r: "optimizeStepAndRepeat ps = Some (Return p)" for p
  proof -
    have w: "0 < \<bar>dw\<bar> - \<bar>dm\<bar> * 2"
    proof (rule ccontr)
      assume "\<not> 0 < \<bar>dw\<bar> - \<bar>dm\<bar> * 2"
      then have "\<bar>dw\<bar> - \<bar>dm\<bar> * 2 \<le> 0" by simp
      from 1[OF this] r show False by simp
    qed
    have h: "0 < \<bar>dh\<bar> - \<bar>dm\<bar> * 2"
    proof (rule ccontr)
      assume "\<not> 0 < \<bar>dh\<bar> - \<bar>dm\<bar> * 2"
      then have "\<bar>dh\<bar> - \<bar>dm\<bar> * 2 \<le> 0" by simp
      from 2[OF w this] r show False by simp
    qed
    from v w h have v': "validate ps = (None, q)" by simp
    from r obtain c n where
      "p = assign ''maxColumns'' (Num (of_nat c)) (assign ''maxRows'' (Num (of_nat n)) q)"
      unfolding optimizeStepAndRepeat_def v' by (auto split: option.splits)
    with l w h show ?thesis by (simp add: lookup_assign)
  qed
  show ?thesis
  proof (intro conjI impI allI)
    assume "\<bar>dw\<bar> - \<bar>dm\<bar> * 2 \<le> 0"
    then show "\<exists>q. optimizeStepAndRepeat ps = Some (Throw TooMuchMarginWidth q)" by (rule 1)
  next
    assume "0 < \<bar>dw\<bar> - \<bar>dm\<bar> * 2 \<and> \<bar>dh\<bar> - \<bar>dm\<bar> * 2 \<le> 0"
    then show "\<exists>q. optimizeStepAndRepeat ps = Some (Throw TooMuchMarginHeight q)"
      using 2 by simp
  next
    fix p assume "optimizeStepAndRepeat ps = Some (Return p)"
    from 3[OF this] show "0 < toNumber (lookup p ''documentWidth'')" ..
  next
    fix p assume "optimizeStepAndRepeat ps = Some (Return p)"
    from 3[OF this] show "0 < toNumber (lookup p ''documentHeight'')" ..
  qed
qed

theorem C6_margin_exceeds_dimension_witness:
  "(\<exists>q. optimizeStepAndRepeat (request 100 100 60 10 10) = Some (Throw TooMuchMarginWidth q))
   \<and> (\<exists>q. optimizeStepAndRepeat (request 100 50 30 10 10) = Some (Throw TooMuchMarginHeight q))
   \<and> optimizeStepAndRepeat (request 100 50 10 20 10) =
       Some (Return [(''documentWidth'', Num 80), (''documentHeight'', Num 30),
                     (''documentMargin'', Num 10), (''itemWidth'', Num 20), (''itemHeight'', Num 10),
                     (''documentWidthReal'', Num 100), (''documentHeightReal'', Num 50),
                     (''maxRows'', Num 3), (''maxColumns'', Num 4)])
   \<and> 0 < toNumber (lookup [(''documentWidth'', Num 80), (''documentHeight'', Num 30),
                     (''documentMargin'', Num 10), (''itemWidth'', Num 20), (''itemHeight'', Num 10),
                     (''documentWidthReal'', Num 100), (''documentHeightReal'', Num 50),
                     (''maxRows'', Num 3), (''maxColumns'', Num 4)] ''documentWidth'')
   \<and> 0 < toNumber (lookup [(''documentWidth'', Num 80), (''documentHeight'', Num 30),
                     (''documentMargin'', Num 10), (''itemWidth'', Num 20), (''itemHeight'', Num 10),
                     (''documentWidthReal'', Num 100), (''documentHeightReal'', Num 50),
                     (''maxRows'', Num 3), (''maxColumns'', Num 4)] ''documentHeight'')"
proof (intro conjI)
  have "(60::rat) \<noteq> 0" by simp
  from C6_margin_exceeds_dimension[OF request_isRequest lookup_request(1,2,4,5,3) this]
  show "\<exists>q. optimizeStepAndRepeat (request 100 100 60 10 10) = Some (Throw TooMuchMarginWidth q)"
    by simp
  have "(30::rat) \<noteq> 0" by simp
  from C6_margin_exceeds_dimension[OF request_isRequest lookup_request(1,2,4,5,3) this]
  show "\<exists>q. optimizeStepAndRepeat (request 100 50 30 10 10) = Some (Throw TooMuchMarginHeight q)"
    by simp
  let ?p = "[(''documentWidth'', Num 80), (''documentHeight'', Num 30),
             (''documentMargin'', Num 10), (''itemWidth'', Num 20), (''itemHeight'', Num 10),
             (''documentWidthReal'', Num 100), (''documentHeightReal'', Num 50),
             (''maxRows'', Num 3), (''maxColumns'', Num 4)]"
  show e: "optimizeStepAndRepeat (request 100 50 10 20 10) = Some (Return ?p)"
    by (simp add: optimizeStepAndRepeat_def eval_defs countFits.simps)
  have "(10::rat) \<noteq> 0" by simp
  from C6_margin_exceeds_dimension[OF request_isRequest lookup_request(1,2,4,5,3) this] e
  have r: "0 < toNumber (lookup ?p ''documentWidth'') \<and> 0 < toNumber (lookup ?p ''documentHeight'')"
    by blast
  from r show "0 < toNumber (lookup ?p ''documentWidth'')" ..
  from r show "0 < toNumber (lookup ?p ''documentHeight'')" ..
qed

section \<open>A missing margin\<close>

lemma nullish_Num: "nullish (Num x) d = Num x"
  by (simp add: nullish_def)

lemma lookup_absent: "k \<notin> fst ` set ps \<Longrightarrow> lookup ps k = Undefined"
  by (induction ps) (auto simp: lookup_def)

lemma lookup_Num_map_of: "lookup ps k = Num x \<Longrightarrow> map_of ps k = Some (Num x)"
  by (auto simp: lookup_def split: option.splits)

text \<open>
  When the four dimensions are numbers, a missing margin is set to 12.7 and nothing else
  changes: the request goes on as if the caller had written that margin.
\<close>

lemma applyDefaults_missing_margin:
  assumes "lookup ps ''documentWidth'' = Num dw" and "lookup ps ''documentHeight'' = Num dh"
    and "lookup ps ''itemWidth'' = Num iw" and "lookup ps ''itemHeight'' = Num ih"
    and "missing ps ''documentMargin''"
  shows "applyDefaults ps = assign ''documentMargin'' (Num (127 / 10)) ps"
    and "applyDefaults (assign ''documentMargin'' (Num (127 / 10)) ps)
           = assign ''documentMargin'' (Num (127 / 10)) ps"
proof -
  note m = assms(1-4)[THEN lookup_Num_map_of]
  from assms(5) have n: "nullish (lookup ps ''documentMargin'') (Num (127 / 10)) = Num (127 / 10)"
    by (auto simp: missing_def nullish_def)
  show "applyDefaults ps = assign ''documentMargin'' (Num (127 / 10)) ps"
    by (simp add: applyDefaults_def Let_def assms(1-4) n nullish_Num lookup_assign
        assign_same m map_of_assign)
  show "applyDefaults (assign ''documentMargin'' (Num (127 / 10)) ps)
           = assign ''documentMargin'' (Num (127 / 10)) ps"
    by (simp add: applyDefaults_def Let_def assms(1-4) nullish_Num lookup_assign
        assign_same m map_of_assign assign_twice)
qed

lemma optimize_missing_margin:
  assumes "lookup ps ''documentWidth'' = Num dw" and "lookup ps ''documentHeight'' = Num dh"
    and "lookup ps ''itemWidth'' = Num iw" and "lookup ps ''itemHeight'' = Num ih"
    and "missing ps ''documentMargin''"
  shows "optimizeStepAndRepeat ps
           = optimizeStepAndRepeat (assign ''documentMargin'' (Num (127 / 10)) ps)"
  by (simp add: optimizeStepAndRepeat_def validate_def applyDefaults_missing_margin[OF assms])

section \<open>Missing fields\<close>

text \<open>
  C7 as stated fails for the margin: a request without the margin field is not an error.
  With the other four fields 330, 488, 90 and 50 the optimizer sets the margin to 12.7
  and returns 3 columns and 9 rows.
\<close>

theorem C7_missing_margin_is_no_error:
  "optimizeStepAndRepeat [(''documentWidth'', Num 330), (''documentHeight'', Num 488),
                          (''itemWidth'', Num 90), (''itemHeight'', Num 50)] =
     Some (Return [(''documentWidth'', Num (3046 / 10)), (''documentHeight'', Num (4626 / 10)),
                   (''itemWidth'', Num 90), (''itemHeight'', Num 50),
                   (''documentMargin'', Num (127 / 10)),
                   (''documentWidthReal'', Num 330), (''documentHeightReal'', Num 488),
                   (''maxRows'', Num 9), (''maxColumns'', Num 3)])"
  by (simp add: optimizeStepAndRepeat_def eval_defs countFits.simps)

text \<open>
  C7, amended: for every request in which any of the four fields documentWidth,
  documentHeight, itemWidth, itemHeight is absent or null, the optimizer fails with the
  null-property error naming a field among these four that is absent or null. A missing
  margin is not an error: when the four fields are present, no null-property error is
  raised and the margin is 12.7.
\<close>

theorem C7_missing_field_error:
  assumes "isRequest ps"
  shows "(missing ps ''documentWidth'' \<or> missing ps ''documentHeight''
            \<or> missing ps ''itemWidth'' \<or> missing ps ''itemHeight'' \<longrightarrow>
          (\<exists>k q. optimizeStepAndRepeat ps = Some (Throw (PropertyIsNull k) q)
             \<and> (k = ''documentWidth'' \<or> k = ''documentHeight'' \<or> k = ''itemWidth''
                  \<or> k = ''itemHeight'')
             \<and> missing ps k))
         \<and> (\<not> missing ps ''documentWidth'' \<and> \<not> missing ps ''documentHeight''
            \<and> \<not> missing ps ''itemWidth'' \<and> \<not> missing ps ''itemHeight''
            \<and> missing ps ''documentMargin'' \<longrightarrow>
          (\<forall>k q. optimizeStepAndRepeat ps \<noteq> Some (Throw (PropertyIsNull k) q))
          \<and> (\<forall>e q. validate ps = (e, q) \<longrightarrow> lookup q ''documentMargin'' = Num (127 / 10)))"
proof -
  have A: "\<exists>k q. optimizeStepAndRepeat ps = Some (Throw (PropertyIsNull k) q)
             \<and> (k = ''documentWidth'' \<or> k = ''documentHeight'' \<or> k = ''itemWidth''
                  \<or> k = ''itemHeight'')
             \<and> missing ps k"
    if "missing ps ''documentWidth'' \<or> missing ps ''documentHeight''
            \<or> missing ps ''itemWidth'' \<or> missing ps ''itemHeight''"
  proof -
    from validate_missing[OF assms that] obtain k q where
      "validate ps = (Some (PropertyIsNull k), q)"
      "k = ''documentWidth'' \<or> k = ''documentHeight'' \<or> k = ''itemWidth'' \<or> k = ''itemHeight''"
      "missing ps k" by (elim exE conjE)
    then show ?thesis
      by (intro exI[of _ k] exI[of _ q]) (simp add: optimizeStepAndRepeat_def)
  qed
  have B: "(\<forall>k q. optimizeStepAndRepeat ps \<noteq> Some (Throw (PropertyIsNull k) q))
          \<and> (\<forall>e q. validate ps = (e, q) \<longrightarrow> lookup q ''documentMargin'' = Num (127 / 10))"
    if a: "\<not> missing ps ''documentWidth'' \<and> \<not> missing ps ''documentHeight''
            \<and> \<not> missing ps ''itemWidth'' \<and> \<not> missing ps ''itemHeight''
            \<and> missing ps ''documentMargin''"
  proof -
    from a obtain dw dh iw ih where f: "lookup ps ''documentWidth'' = Num dw"
      "lookup ps ''documentHeight'' = Num dh" "lookup ps ''itemWidth'' = Num iw"
      "lookup ps ''itemHeight'' = Num ih"
      by (meson not_missing_Num)
    from a have m: "nullish (lookup ps ''documentMargin'') (Num (127 / 10)) = Num (127 / 10)"
      by (auto simp: missing_def nullish_def)
    from validate_request[OF assms f m] obtain q0 where
      v: "validate ps =
            (if \<bar>dw\<bar> - 127 / 10 * 2 \<le> 0 then Some TooMuchMarginWidth
             else if \<bar>dh\<bar> - 127 / 10 * 2 \<le> 0 then Some TooMuchMarginHeight
             else None, q0)"
      and l: "lookup q0 ''documentMargin'' = Num (127 / 10)" by auto
    show ?thesis
      using l by (auto simp: optimizeStepAndRepeat_def v split: option.splits)
  qed
  show ?thesis
    by (rule conjI) (rule impI, erule A, rule impI, erule B)
qed

theorem C7_missing_field_error_witness:
  "(\<exists>k q. optimizeStepAndRepeat [(''documentWidth'', Num 330), (''documentHeight'', Num 488),
        (''documentMargin'', Null), (''itemHeight'', Num 50)] = Some (Throw (PropertyIsNull k) q)
      \<and> (k = ''documentWidth'' \<or> k = ''documentHeight'' \<or> k = ''itemWidth'' \<or> k = ''itemHeight'')
      \<and> missing [(''documentWidth'', Num 330), (''documentHeight'', Num 488),
                   (''documentMargin'', Null), (''itemHeight'', Num 50)] k)
   \<and> lookup (snd (validate [(''documentWidth'', Num 330), (''documentHeight'', Num 488),
                             (''itemWidth'', Num 90), (''itemHeight'', Num 50)]))
        ''documentMargin'' = Num (127 / 10)"
proof
  have r: "isRequest [(''documentWidth'', Num 330), (''documentHeight'', Num 488),
                      (''documentMargin'', Null), (''itemHeight'', Num 50)]"
    by (simp add: isRequest_def)
  have m: "missing [(''documentWidth'', Num 330), (''documentHeight'', Num 488),
                    (''documentMargin'', Null), (''itemHeight'', Num 50)] ''itemWidth''"
    by (simp add: missing_def lookup_def)
  from C7_missing_field_error[OF r] m
  show "\<exists>k q. optimizeStepAndRepeat [(''documentWidth'', Num 330), (''documentHeight'', Num 488),
        (''documentMargin'', Null), (''itemHeight'', Num 50)] = Some (Throw (PropertyIsNull k) q)
      \<and> (k = ''documentWidth'' \<or> k = ''documentHeight'' \<or> k = ''itemWidth'' \<or> k = ''itemHeight'')
      \<and> missing [(''documentWidth'', Num 330), (''documentHeight'', Num 488),
                   (''documentMargin'', Null), (''itemHeight'', Num 50)] k"
    by simp
  let ?r = "[(''documentWidth'', Num 330), (''documentHeight'', Num 488),
             (''itemWidth'', Num 90), (''itemHeight'', Num 50)]"
  have r': "isRequest ?r" by (simp add: isRequest_def)
  have m': "\<not> missing ?r ''documentWidth'' \<and> \<not> missing ?r ''documentHeight''
            \<and> \<not> missing ?r ''itemWidth'' \<and> \<not> missing ?r ''itemHeight''
            \<and> missing ?r ''documentMargin''"
    by (simp add: missing_def lookup_def)
  from C7_missing_field_error[OF r'] m'
  have "\<forall>e q. validate ?r = (e, q) \<longrightarrow> lookup q ''documentMargin'' = Num (127 / 10)"
    by simp
  then show "lookup (snd (validate ?r)) ''documentMargin'' = Num (127 / 10)"
    by (metis surjective_pairing)
qed

text \<open>A result that is returned is the checked object with the two counts set.\<close>

lemma optimize_returns_checked:
  assumes "optimizeStepAndRepeat ps = Some (Return p)"
  shows "\<exists>q. validate ps = (None, q)
           \<and> (\<forall>k. k \<noteq> ''maxRows'' \<longrightarrow> k \<noteq> ''maxColumns'' \<longrightarrow> lookup p k = lookup q k)"
proof -
  obtain e q where v: "validate ps = (e, q)" by (cases "validate ps")
  with assms have e: "e = None" by (cases e) (simp_all add: optimizeStepAndRepeat_def)
  from assms obtain c r where
    p: "p = assign ''maxColumns'' (Num (of_nat c)) (assign ''maxRows'' (Num (of_nat r)) q)"
    unfolding optimizeStepAndRepeat_def v e by (auto split: option.splits)
  show ?thesis
    by (rule exI[of _ q]) (simp add: v e p lookup_assign)
qed

section \<open>The margin that is used\<close>

text \<open>
  C8: the default margin 12.7 is applied exactly when the margin field is missing (absent
  or null, which \<^verbatim>\<open>??\<close> treats alike). The call then goes on as on the same request with
  margin 12.7: the margin of the object is 12.7 and the usable dimensions are the
  document's less 25.4, in the checked object and in every result that is returned, and a
  result is returned when the items are not of size 0 and the usable dimensions are
  positive. A margin that is supplied is the one used, by magnitude. A margin supplied as
  0 stays 0: the checks pass, no error is thrown, nothing is taken off the document's
  dimensions, and a result is returned when the items are not of size 0.
\<close>

theorem C8_default_margin:
  assumes "isRequest ps"
    and "lookup ps ''documentWidth'' = Num dw" and "lookup ps ''documentHeight'' = Num dh"
    and "lookup ps ''itemWidth'' = Num iw" and "lookup ps ''itemHeight'' = Num ih"
  shows "(missing ps ''documentMargin'' \<longrightarrow>
            optimizeStepAndRepeat ps
              = optimizeStepAndRepeat (assign ''documentMargin'' (Num (127 / 10)) ps)
            \<and> (\<exists>e q. validate ps = (e, q) \<and> lookup q ''documentMargin'' = Num (127 / 10)
                  \<and> lookup q ''documentWidth'' = Num (\<bar>dw\<bar> - 127 / 10 * 2)
                  \<and> lookup q ''documentHeight'' = Num (\<bar>dh\<bar> - 127 / 10 * 2))
            \<and> (\<forall>p. optimizeStepAndRepeat ps = Some (Return p) \<longrightarrow>
                  lookup p ''documentMargin'' = Num (127 / 10)
                  \<and> lookup p ''documentWidth'' = Num (\<bar>dw\<bar> - 127 / 10 * 2)
                  \<and> lookup p ''documentHeight'' = Num (\<bar>dh\<bar> - 127 / 10 * 2))
            \<and> (iw \<noteq> 0 \<and> ih \<noteq> 0 \<and> 0 < \<bar>dw\<bar> - 127 / 10 * 2 \<and> 0 < \<bar>dh\<bar> - 127 / 10 * 2 \<longrightarrow>
                  (\<exists>p. optimizeStepAndRepeat ps = Some (Return p)
                     \<and> lookup p ''documentMargin'' = Num (127 / 10)
                     \<and> lookup p ''documentWidth'' = Num (\<bar>dw\<bar> - 127 / 10 * 2)
                     \<and> lookup p ''documentHeight'' = Num (\<bar>dh\<bar> - 127 / 10 * 2))))
         \<and> (\<forall>dm. lookup ps ''documentMargin'' = Num dm \<longrightarrow>
              (\<exists>e q. validate ps = (e, q) \<and> lookup q ''documentMargin'' = Num \<bar>dm\<bar>)
              \<and> (\<forall>p. optimizeStepAndRepeat ps = Some (Return p) \<longrightarrow>
                    lookup p ''documentMargin'' = Num \<bar>dm\<bar>
                    \<and> lookup p ''documentWidth'' = Num (\<bar>dw\<bar> - \<bar>dm\<bar> * 2)
                    \<and> lookup p ''documentHeight'' = Num (\<bar>dh\<bar> - \<bar>dm\<bar> * 2)))
         \<and> (lookup ps ''documentMargin'' = Num 0 \<longrightarrow>
              (\<exists>q. validate ps = (None, q) \<and> lookup q ''documentMargin'' = Num 0
                 \<and> lookup q ''documentWidth'' = Num \<bar>dw\<bar>
                 \<and> lookup q ''documentHeight'' = Num \<bar>dh\<bar>)
              \<and> (\<forall>e q. optimizeStepAndRepeat ps \<noteq> Some (Throw e q))
              \<and> (iw \<noteq> 0 \<and> ih \<noteq> 0 \<longrightarrow>
                    (\<exists>p. optimizeStepAndRepeat ps = Some (Return p)
                       \<and> lookup p ''documentMargin'' = Num 0
                       \<and> lookup p ''documentWidth'' = Num \<bar>dw\<bar>
                       \<and> lookup p ''documentHeight'' = Num \<bar>dh\<bar>)))"
proof -
  have checked: "\<exists>e q. validate ps = (e, q) \<and> lookup q ''documentMargin'' = Num \<bar>dm\<bar>
                  \<and> lookup q ''documentWidth'' = Num (\<bar>dw\<bar> - \<bar>dm\<bar> * 2)
                  \<and> lookup q ''documentHeight'' = Num (\<bar>dh\<bar> - \<bar>dm\<bar> * 2)"
    if "nullish (lookup ps ''documentMargin'') (Num (127 / 10)) = Num dm" for dm
    using validate_request[OF assms that] by blast
  have returned: "lookup p ''documentMargin'' = Num \<bar>dm\<bar>
                  \<and> lookup p ''documentWidth'' = Num (\<bar>dw\<bar> - \<bar>dm\<bar> * 2)
                  \<and> lookup p ''documentHeight'' = Num (\<bar>dh\<bar> - \<bar>dm\<bar> * 2)"
    if m: "nullish (lookup ps ''documentMargin'') (Num (127 / 10)) = Num dm"
      and r: "optimizeStepAndRepeat ps = Some (Return p)" for dm p
  proof -
    from optimize_returns_checked[OF r] obtain q where
      v: "validate ps = (None, q)"
      and k: "\<And>k. k \<noteq> ''maxRows'' \<Longrightarrow> k \<noteq> ''maxColumns'' \<Longrightarrow> lookup p k = lookup q k"
      by blast
    from checked[OF m] v have "lookup q ''documentMargin'' = Num \<bar>dm\<bar>"
      "lookup q ''documentWidth'' = Num (\<bar>dw\<bar> - \<bar>dm\<bar> * 2)"
      "lookup q ''documentHeight'' = Num (\<bar>dh\<bar> - \<bar>dm\<bar> * 2)" by auto
    then show ?thesis by (simp add: k)
  qed
  have returns: "\<exists>p. optimizeStepAndRepeat ps = Some (Return p)
                  \<and> lookup p ''documentMargin'' = Num \<bar>dm\<bar>
                  \<and> lookup p ''documentWidth'' = Num (\<bar>dw\<bar> - \<bar>dm\<bar> * 2)
                  \<and> lookup p ''documentHeight'' = Num (\<bar>dh\<bar> - \<bar>dm\<bar> * 2)"
    if m: "nullish (lookup ps ''documentMargin'') (Num (127 / 10)) = Num dm"
      and ok: "dm = 0 \<or> 0 < \<bar>dw\<bar> - \<bar>dm\<bar> * 2 \<and> 0 < \<bar>dh\<bar> - \<bar>dm\<bar> * 2"
      and nz: "iw \<noteq> 0" "ih \<noteq> 0" for dm
  proof -
    from optimize_request[OF assms m ok nz] obtain p where
      "optimizeStepAndRepeat ps = Some (Return p)"
      "lookup p ''documentWidth'' = Num (\<bar>dw\<bar> - \<bar>dm\<bar> * 2)"
      "lookup p ''documentHeight'' = Num (\<bar>dh\<bar> - \<bar>dm\<bar> * 2)"
      "lookup p ''documentMargin'' = Num \<bar>dm\<bar>"
      by (elim exE conjE)
    then show ?thesis by (intro exI[of _ p] conjI)
  qed
  have A: "optimizeStepAndRepeat ps
              = optimizeStepAndRepeat (assign ''documentMargin'' (Num (127 / 10)) ps)
            \<and> (\<exists>e q. validate ps = (e, q) \<and> lookup q ''documentMargin'' = Num (127 / 10)
                  \<and> lookup q ''documentWidth'' = Num (\<bar>dw\<bar> - 127 / 10 * 2)
                  \<and> lookup q ''documentHeight'' = Num (\<bar>dh\<bar> - 127 / 10 * 2))
            \<and> (\<forall>p. optimizeStepAndRepeat ps = Some (Return p) \<longrightarrow>
                  lookup p ''documentMargin'' = Num (127 / 10)
                  \<and> lookup p ''documentWidth'' = Num (\<bar>dw\<bar> - 127 / 10 * 2)
                  \<and> lookup p ''documentHeight'' = Num (\<bar>dh\<bar> - 127 / 10 * 2))
            \<and> (iw \<noteq> 0 \<and> ih \<noteq> 0 \<and> 0 < \<bar>dw\<bar> - 127 / 10 * 2 \<and> 0 < \<bar>dh\<bar> - 127 / 10 * 2 \<longrightarrow>
                  (\<exists>p. optimizeStepAndRepeat ps = Some (Return p)
                     \<and> lookup p ''documentMargin'' = Num (127 / 10)
                     \<and> lookup p ''documentWidth'' = Num (\<bar>dw\<bar> - 127 / 10 * 2)
                     \<and> lookup p ''documentHeight'' = Num (\<bar>dh\<bar> - 127 / 10 * 2)))"
    if mi: "missing ps ''documentMargin''"
  proof -
    from mi have m: "nullish (lookup ps ''documentMargin'') (Num (127 / 10)) = Num (127 / 10)"
      by (auto simp: missing_def nullish_def)
    have a: "\<bar>127 / 10 :: rat\<bar> = 127 / 10" by simp
    have 1: "optimizeStepAndRepeat ps
              = optimizeStepAndRepeat (assign ''documentMargin'' (Num (127 / 10)) ps)"
      by (rule optimize_missing_margin[OF assms(2-5) mi])
    have 2: "\<exists>e q. validate ps = (e, q) \<and> lookup q ''documentMargin'' = Num (127 / 10)
                  \<and> lookup q ''documentWidth'' = Num (\<bar>dw\<bar> - 127 / 10 * 2)
                  \<and> lookup q ''documentHeight'' = Num (\<bar>dh\<bar> - 127 / 10 * 2)"
      using checked[OF m] unfolding a .
    have 3: "\<forall>p. optimizeStepAndRepeat ps = Some (Return p) \<longrightarrow>
                  lookup p ''documentMargin'' = Num (127 / 10)
                  \<and> lookup p ''documentWidth'' = Num (\<bar>dw\<bar> - 127 / 10 * 2)
                  \<and> lookup p ''documentHeight'' = Num (\<bar>dh\<bar> - 127 / 10 * 2)"
    proof (intro allI impI)
      fix p assume r: "optimizeStepAndRepeat ps = Some (Return p)"
      from returned[OF m r]
      show "lookup p ''documentMargin'' = Num (127 / 10)
                  \<and> lookup p ''documentWidth'' = Num (\<bar>dw\<bar> - 127 / 10 * 2)
                  \<and> lookup p ''documentHeight'' = Num (\<bar>dh\<bar> - 127 / 10 * 2)"
        unfolding a .
    qed
    have 4: "iw \<noteq> 0 \<and> ih \<noteq> 0 \<and> 0 < \<bar>dw\<bar> - 127 / 10 * 2 \<and> 0 < \<bar>dh\<bar> - 127 / 10 * 2 \<longrightarrow>
                  (\<exists>p. optimizeStepAndRepeat ps = Some (Return p)
                     \<and> lookup p ''documentMargin'' = Num (127 / 10)
                     \<and> lookup p ''documentWidth'' = Num (\<bar>dw\<bar> - 127 / 10 * 2)
                     \<and> lookup p ''documentHeight'' = Num (\<bar>dh\<bar> - 127 / 10 * 2))"
    proof
      assume "iw \<noteq> 0 \<and> ih \<noteq> 0 \<and> 0 < \<bar>dw\<bar> - 127 / 10 * 2 \<and> 0 < \<bar>dh\<bar> - 127 / 10 * 2"
      then have "(127 / 10 :: rat) = 0 \<or> 0 < \<bar>dw\<bar> - \<bar>127 / 10\<bar> * 2 \<and> 0 < \<bar>dh\<bar> - \<bar>127 / 10\<bar> * 2"
        and "iw \<noteq> 0" and "ih \<noteq> 0" by simp_all
      from returns[OF m this]
      show "\<exists>p. optimizeStepAndRepeat ps = Some (Return p)
                     \<and> lookup p ''documentMargin'' = Num (127 / 10)
                     \<and> lookup p ''documentWidth'' = Num (\<bar>dw\<bar> - 127 / 10 * 2)
                     \<and> lookup p ''documentHeight'' = Num (\<bar>dh\<bar> - 127 / 10 * 2)"
        unfolding a .
    qed
    from 1 2 3 4 show ?thesis by (intro conjI)
  qed
  have B: "(\<exists>e q. validate ps = (e, q) \<and> lookup q ''documentMargin'' = Num \<bar>dm\<bar>)
              \<and> (\<forall>p. optimizeStepAndRepeat ps = Some (Return p) \<longrightarrow>
                    lookup p ''documentMargin'' = Num \<bar>dm\<bar>
                    \<and> lookup p ''documentWidth'' = Num (\<bar>dw\<bar> - \<bar>dm\<bar> * 2)
                    \<and> lookup p ''documentHeight'' = Num (\<bar>dh\<bar> - \<bar>dm\<bar> * 2))"
    if s: "lookup ps ''documentMargin'' = Num dm" for dm
  proof -
    from s have m: "nullish (lookup ps ''documentMargin'') (Num (127 / 10)) = Num dm"
      by (simp add: nullish_Num)
    from checked[OF m] have 1: "\<exists>e q. validate ps = (e, q) \<and> lookup q ''documentMargin'' = Num \<bar>dm\<bar>"
      by blast
    from returned[OF m] have 2: "\<forall>p. optimizeStepAndRepeat ps = Some (Return p) \<longrightarrow>
                    lookup p ''documentMargin'' = Num \<bar>dm\<bar>
                    \<and> lookup p ''documentWidth'' = Num (\<bar>dw\<bar> - \<bar>dm\<bar> * 2)
                    \<and> lookup p ''documentHeight'' = Num (\<bar>dh\<bar> - \<bar>dm\<bar> * 2)"
      by blast
    from 1 2 show ?thesis ..
  qed
  have C: "(\<exists>q. validate ps = (None, q) \<and> lookup q ''documentMargin'' = Num 0
                 \<and> lookup q ''documentWidth'' = Num \<bar>dw\<bar>
                 \<and> lookup q ''documentHeight'' = Num \<bar>dh\<bar>)
              \<and> (\<forall>e q. optimizeStepAndRepeat ps \<noteq> Some (Throw e q))
              \<and> (iw \<noteq> 0 \<and> ih \<noteq> 0 \<longrightarrow>
                    (\<exists>p. optimizeStepAndRepeat ps = Some (Return p)
                       \<and> lookup p ''documentMargin'' = Num 0
                       \<and> lookup p ''documentWidth'' = Num \<bar>dw\<bar>
                       \<and> lookup p ''documentHeight'' = Num \<bar>dh\<bar>))"
    if s: "lookup ps ''documentMargin'' = Num 0"
  proof -
    from s have m: "nullish (lookup ps ''documentMargin'') (Num (127 / 10)) = Num 0"
      by (simp add: nullish_Num)
    from validate_request[OF assms m] obtain q where
      v: "validate ps = (None, q)" and l: "lookup q ''documentMargin'' = Num 0"
      "lookup q ''documentWidth'' = Num \<bar>dw\<bar>" "lookup q ''documentHeight'' = Num \<bar>dh\<bar>"
      by auto
    have 1: "\<exists>q. validate ps = (None, q) \<and> lookup q ''documentMargin'' = Num 0
                 \<and> lookup q ''documentWidth'' = Num \<bar>dw\<bar>
                 \<and> lookup q ''documentHeight'' = Num \<bar>dh\<bar>"
      using v l by (intro exI[of _ q] conjI)
    have 2: "\<forall>e q. optimizeStepAndRepeat ps \<noteq> Some (Throw e q)"
      by (simp add: optimizeStepAndRepeat_def v split: option.splits)
    have 3: "iw \<noteq> 0 \<and> ih \<noteq> 0 \<longrightarrow>
                    (\<exists>p. optimizeStepAndRepeat ps = Some (Return p)
                       \<and> lookup p ''documentMargin'' = Num 0
                       \<and> lookup p ''documentWidth'' = Num \<bar>dw\<bar>
                       \<and> lookup p ''documentHeight'' = Num \<bar>dh\<bar>)"
    proof
      assume "iw \<noteq> 0 \<and> ih \<noteq> 0"
      then have nz: "iw \<noteq> 0" "ih \<noteq> 0" by simp_all
      have "(0::rat) = 0 \<or> 0 < \<bar>dw\<bar> - \<bar>0\<bar> * 2 \<and> 0 < \<bar>dh\<bar> - \<bar>0\<bar> * 2" by simp
      from returns[OF m this nz]
      show "\<exists>p. optimizeStepAndRepeat ps = Some (Return p)
                       \<and> lookup p ''documentMargin'' = Num 0
                       \<and> lookup p ''documentWidth'' = Num \<bar>dw\<bar>
                       \<and> lookup p ''documentHeight'' = Num \<bar>dh\<bar>"
        by simp
    qed
    from 1 2 3 show ?thesis by (intro conjI)
  qed
  show ?thesis
    by (intro conjI allI) (rule impI, erule A, rule impI, erule B, rule impI, erule C)
qed

theorem C8_default_margin_witness:
  "optimizeStepAndRepeat [(''documentWidth'', Num 330), (''documentHeight'', Num 488),
                          (''itemWidth'', Num 90), (''itemHeight'', Num 50)]
     = optimizeStepAndRepeat [(''documentWidth'', Num 330), (''documentHeight'', Num 488),
                              (''itemWidth'', Num 90), (''itemHeight'', Num 50),
                              (''documentMargin'', Num (127 / 10))]
   \<and> (\<exists>p. optimizeStepAndRepeat [(''documentWidth'', Num 330), (''documentHeight'', Num 488),
                                   (''itemWidth'', Num 90), (''itemHeight'', Num 50)]
            = Some (Return p)
         \<and> lookup p ''documentMargin'' = Num (127 / 10)
         \<and> lookup p ''documentWidth'' = Num (3046 / 10)
         \<and> lookup p ''documentHeight'' = Num (4626 / 10))
   \<and> (\<exists>e q. validate (request 100 100 (- 5) 30 30) = (e, q)
         \<and> lookup q ''documentMargin'' = Num 5)
   \<and> (\<exists>p. optimizeStepAndRepeat (request 100 100 0 30 30) = Some (Return p)
         \<and> lookup p ''documentMargin'' = Num 0
         \<and> lookup p ''documentWidth'' = Num 100 \<and> lookup p ''documentHeight'' = Num 100)"
proof (intro conjI)
  let ?r = "[(''documentWidth'', Num 330), (''documentHeight'', Num 488),
             (''itemWidth'', Num 90), (''itemHeight'', Num 50)]"
  have r: "isRequest ?r" by (simp add: isRequest_def)
  have l: "lookup ?r ''documentWidth'' = Num 330" "lookup ?r ''documentHeight'' = Num 488"
    "lookup ?r ''itemWidth'' = Num 90" "lookup ?r ''itemHeight'' = Num 50"
    by (simp_all add: lookup_def)
  have m: "missing ?r ''documentMargin''" by (simp add: missing_def lookup_def)
  from C8_default_margin[OF r l] m
  show "optimizeStepAndRepeat ?r
     = optimizeStepAndRepeat [(''documentWidth'', Num 330), (''documentHeight'', Num 488),
                              (''itemWidth'', Num 90), (''itemHeight'', Num 50),
                              (''documentMargin'', Num (127 / 10))]"
    by simp
  note d = mp[OF C8_default_margin[OF r l, THEN conjunct1] m]
  from d[THEN conjunct2, THEN conjunct2, THEN conjunct2]
  show "\<exists>p. optimizeStepAndRepeat ?r = Some (Return p)
         \<and> lookup p ''documentMargin'' = Num (127 / 10)
         \<and> lookup p ''documentWidth'' = Num (3046 / 10)
         \<and> lookup p ''documentHeight'' = Num (4626 / 10)"
    by simp
  from C8_default_margin[OF request_isRequest lookup_request(1,2,4,5), of 100 100 "- 5" 30 30]
    lookup_request(3)[of 100 100 "- 5" 30 30]
  show "\<exists>e q. validate (request 100 100 (- 5) 30 30) = (e, q)
         \<and> lookup q ''documentMargin'' = Num 5"
    by simp
  from C8_default_margin[OF request_isRequest lookup_request(1,2,4,5), of 100 100 0 30 30]
    lookup_request(3)[of 100 100 0 30 30]
  show "\<exists>p. optimizeStepAndRepeat (request 100 100 0 30 30) = Some (Return p)
         \<and> lookup p ''documentMargin'' = Num 0
         \<and> lookup p ''documentWidth'' = Num 100 \<and> lookup p ''documentHeight'' = Num 100"
    by simp
qed

section \<open>Retained dimensions and signs\<close>




section \<open>Mutation of the caller's object\<close>

text \<open>
  C10 as stated fails: the optimizer works in place on the caller's object. After the
  call on the default request the object that held documentWidth 330 and documentHeight
  488 holds 304.6 and 462.6, and four more properties.
\<close>

theorem C10_request_is_mutated:
  "optimizeStepAndRepeat (request 330 488 (127 / 10) 90 50) =
     Some (Return [(''documentWidth'', Num (3046 / 10)), (''documentHeight'', Num (4626 / 10)),
                   (''documentMargin'', Num (127 / 10)), (''itemWidth'', Num 90),
                   (''itemHeight'', Num 50),
                   (''documentWidthReal'', Num 330), (''documentHeightReal'', Num 488),
                   (''maxRows'', Num 9), (''maxColumns'', Num 3)])
   \<and> optimizeStepAndRepeat (request 330 488 (127 / 10) 90 50)
       \<noteq> Some (Return (request 330 488 (127 / 10) 90 50))"
  by (simp add: optimizeStepAndRepeat_def eval_defs countFits.simps)

text \<open>
  C10, amended: the optimizer is not free of mutation: it works in place on the caller's
  request object and returns that object. After every call that returns, re-reading the
  request shows the result's values and not the original ones: documentWidth and
  documentHeight are the magnitudes of the original ones less twice the magnitude of the
  margin, and maxRows and maxColumns, absent before, are set. The outcome is still a
  function of the argument's field values alone, the source reading nothing else, so two
  calls on equal inputs give equal outputs.
\<close>

theorem C10_optimizer_mutates_in_place:
  assumes "isRequest ps" and "optimizeStepAndRepeat ps = Some (Return p)"
  shows "p \<noteq> ps
         \<and> (\<exists>dw dh dm. lookup ps ''documentWidth'' = Num dw \<and> lookup ps ''documentHeight'' = Num dh
               \<and> nullish (lookup ps ''documentMargin'') (Num (127 / 10)) = Num dm
               \<and> lookup p ''documentWidth'' = Num (\<bar>dw\<bar> - \<bar>dm\<bar> * 2)
               \<and> lookup p ''documentHeight'' = Num (\<bar>dh\<bar> - \<bar>dm\<bar> * 2))
         \<and> lookup ps ''maxRows'' = Undefined \<and> lookup ps ''maxColumns'' = Undefined
         \<and> (\<exists>r c. lookup p ''maxRows'' = Num (of_nat r) \<and> lookup p ''maxColumns'' = Num (of_nat c))"
proof -
  obtain e q where v: "validate ps = (e, q)" by (cases "validate ps")
  with assms(2) have e: "e = None" by (cases e) (simp_all add: optimizeStepAndRepeat_def)
  have nm: "\<not> (missing ps ''documentWidth'' \<or> missing ps ''documentHeight''
           \<or> missing ps ''itemWidth'' \<or> missing ps ''itemHeight'')"
  proof
    assume "missing ps ''documentWidth'' \<or> missing ps ''documentHeight''
           \<or> missing ps ''itemWidth'' \<or> missing ps ''itemHeight''"
    from validate_missing[OF assms(1) this] v e show False by auto
  qed
  then obtain dw dh iw ih where f: "lookup ps ''documentWidth'' = Num dw"
    "lookup ps ''documentHeight'' = Num dh" "lookup ps ''itemWidth'' = Num iw"
    "lookup ps ''itemHeight'' = Num ih"
    by (meson not_missing_Num)
  obtain dm where dm: "nullish (lookup ps ''documentMargin'') (Num (127 / 10)) = Num dm"
    using nullish_Num_ex by blast
  from validate_request[OF assms(1) f dm] v
  have l: "lookup q ''documentWidth'' = Num (\<bar>dw\<bar> - \<bar>dm\<bar> * 2)"
    "lookup q ''documentHeight'' = Num (\<bar>dh\<bar> - \<bar>dm\<bar> * 2)"
    by auto
  from assms(2) obtain c r where
    p: "p = assign ''maxColumns'' (Num (of_nat c)) (assign ''maxRows'' (Num (of_nat r)) q)"
    unfolding optimizeStepAndRepeat_def v e by (auto split: option.splits)
  from assms(1) have k: "''maxRows'' \<notin> fst ` set ps" "''maxColumns'' \<notin> fst ` set ps"
    unfolding isRequest_def by auto
  then have u: "lookup ps ''maxRows'' = Undefined" "lookup ps ''maxColumns'' = Undefined"
    by (simp_all add: lookup_absent)
  have pl: "lookup p ''maxRows'' = Num (of_nat r)" "lookup p ''maxColumns'' = Num (of_nat c)"
    "lookup p ''documentWidth'' = Num (\<bar>dw\<bar> - \<bar>dm\<bar> * 2)"
    "lookup p ''documentHeight'' = Num (\<bar>dh\<bar> - \<bar>dm\<bar> * 2)"
    by (simp_all add: p lookup_assign l)
  from pl(1) u(1) have ne: "p \<noteq> ps" by auto
  from ne f(1,2) dm pl u show ?thesis by (intro conjI exI)
qed

theorem C10_optimizer_mutates_in_place_witness:
  "optimizeStepAndRepeat (request 100 50 10 20 10) =
     Some (Return [(''documentWidth'', Num 80), (''documentHeight'', Num 30),
                   (''documentMargin'', Num 10), (''itemWidth'', Num 20), (''itemHeight'', Num 10),
                   (''documentWidthReal'', Num 100), (''documentHeightReal'', Num 50),
                   (''maxRows'', Num 3), (''maxColumns'', Num 4)])
   \<and> [(''documentWidth'', Num 80), (''documentHeight'', Num 30),
       (''documentMargin'', Num 10), (''itemWidth'', Num 20), (''itemHeight'', Num 10),
       (''documentWidthReal'', Num 100), (''documentHeightReal'', Num 50),
       (''maxRows'', Num 3), (''maxColumns'', Num 4)] \<noteq> request 100 50 10 20 10
   \<and> lookup (request 100 50 10 20 10) ''maxRows'' = Undefined
   \<and> lookup (request 100 50 10 20 10) ''maxColumns'' = Undefined"
proof -
  have e: "optimizeStepAndRepeat (request 100 50 10 20 10) =
     Some (Return [(''documentWidth'', Num 80), (''documentHeight'', Num 30),
                   (''documentMargin'', Num 10), (''itemWidth'', Num 20), (''itemHeight'', Num 10),
                   (''documentWidthReal'', Num 100), (''documentHeightReal'', Num 50),
                   (''maxRows'', Num 3), (''maxColumns'', Num 4)])"
    by (simp add: optimizeStepAndRepeat_def eval_defs countFits.simps)
  from C10_optimizer_mutates_in_place[OF request_isRequest e] e show ?thesis by blast
qed

section \<open>The orientation decision of commitChanges\<close>

text \<open>
  C4: for every non-square document on which both candidates succeed, app.js renders a
  single preview: the portrait candidate when its item count is strictly greater than the
  landscape candidate's, the landscape candidate otherwise (so also on a tie); hence the
  rendered candidate's item count is at least the other's.
\<close>

theorem C4_preferred_candidate:
  assumes "documentWidth st \<noteq> documentHeight st"
    and "optimizeStepAndRepeat
           (request (max (documentWidth st) (documentHeight st))
                    (min (documentWidth st) (documentHeight st))
                    (documentMargin st) (itemWidth st) (itemHeight st)) = Some (Return l)"
    and "optimizeStepAndRepeat
           (request (min (documentWidth st) (documentHeight st))
                    (max (documentWidth st) (documentHeight st))
                    (documentMargin st) (itemWidth st) (itemHeight st)) = Some (Return p)"
  shows "previews (fst (commitChanges useScroll st res)) =
           [if itemsCount l < itemsCount p then (''portrait'', p) else (''landscape'', l)]
         \<and> (\<forall>(ident, r) \<in> set (previews (fst (commitChanges useScroll st res))).
              itemsCount l \<le> itemsCount r \<and> itemsCount p \<le> itemsCount r)"
proof (cases "documentWidth st > documentHeight st")
  case True
  then have m: "max (documentWidth st) (documentHeight st) = documentWidth st"
    "min (documentWidth st) (documentHeight st) = documentHeight st" by simp_all
  from assms True show ?thesis
    unfolding m by (simp add: commitChanges_def Let_def)
next
  case False
  with assms(1) have m: "max (documentWidth st) (documentHeight st) = documentHeight st"
    "min (documentWidth st) (documentHeight st) = documentWidth st" by simp_all
  from assms False show ?thesis
    unfolding m by (simp add: commitChanges_def Let_def)
qed

theorem C4_preferred_candidate_witness:
  "previews (fst (commitChanges True
      \<lparr>documentWidth = 100, documentHeight = 50, documentMargin = 0, itemWidth = 10,
       itemHeight = 10, scrollToResult = True\<rparr>
      \<lparr>square = None, landscape = None, portrait = None\<rparr>)) =
     [(''landscape'', [(''documentWidth'', Num 100), (''documentHeight'', Num 50),
                       (''documentMargin'', Num 0), (''itemWidth'', Num 10),
                       (''itemHeight'', Num 10), (''documentWidthReal'', Num 100),
                       (''documentHeightReal'', Num 50), (''maxRows'', Num 5),
                       (''maxColumns'', Num 10)])]
   \<and> previews (fst (commitChanges True
      \<lparr>documentWidth = 100, documentHeight = 50, documentMargin = 0, itemWidth = 20,
       itemHeight = 30, scrollToResult = True\<rparr>
      \<lparr>square = None, landscape = None, portrait = None\<rparr>)) =
     [(''portrait'', [(''documentWidth'', Num 50), (''documentHeight'', Num 100),
                      (''documentMargin'', Num 0), (''itemWidth'', Num 20),
                      (''itemHeight'', Num 30), (''documentWidthReal'', Num 50),
                      (''documentHeightReal'', Num 100), (''maxRows'', Num 3),
                      (''maxColumns'', Num 2)])]"
proof
  let ?res = "\<lparr>square = None, landscape = None, portrait = None\<rparr>"
  let ?st = "\<lparr>documentWidth = 100, documentHeight = 50, documentMargin = 0, itemWidth = 10,
              itemHeight = 10, scrollToResult = True\<rparr>"
  let ?l = "[(''documentWidth'', Num 100), (''documentHeight'', Num 50),
             (''documentMargin'', Num 0), (''itemWidth'', Num 10),
             (''itemHeight'', Num 10), (''documentWidthReal'', Num 100),
             (''documentHeightReal'', Num 50), (''maxRows'', Num 5),
             (''maxColumns'', Num 10)]"
  let ?p = "[(''documentWidth'', Num 50), (''documentHeight'', Num 100),
             (''documentMargin'', Num 0), (''itemWidth'', Num 10),
             (''itemHeight'', Num 10), (''documentWidthReal'', Num 50),
             (''documentHeightReal'', Num 100), (''maxRows'', Num 10),
             (''maxColumns'', Num 5)]"
  have 1: "documentWidth ?st \<noteq> documentHeight ?st" by simp
  have 2: "optimizeStepAndRepeat
           (request (max (documentWidth ?st) (documentHeight ?st))
                    (min (documentWidth ?st) (documentHeight ?st))
                    (documentMargin ?st) (itemWidth ?st) (itemHeight ?st)) = Some (Return ?l)"
    by (simp add: optimizeStepAndRepeat_def eval_defs countFits.simps)
  have 3: "optimizeStepAndRepeat
           (request (min (documentWidth ?st) (documentHeight ?st))
                    (max (documentWidth ?st) (documentHeight ?st))
                    (documentMargin ?st) (itemWidth ?st) (itemHeight ?st)) = Some (Return ?p)"
    by (simp add: optimizeStepAndRepeat_def eval_defs countFits.simps)
  have 4: "\<not> itemsCount ?l < itemsCount ?p" by (simp add: itemsCount_def lookup_def)
  from C4_preferred_candidate[OF 1 2 3, of True ?res] 4
  show "previews (fst (commitChanges True ?st ?res)) = [(''landscape'', ?l)]" by simp
  let ?st' = "\<lparr>documentWidth = 100, documentHeight = 50, documentMargin = 0, itemWidth = 20,
               itemHeight = 30, scrollToResult = True\<rparr>"
  let ?l' = "[(''documentWidth'', Num 100), (''documentHeight'', Num 50),
              (''documentMargin'', Num 0), (''itemWidth'', Num 20),
              (''itemHeight'', Num 30), (''documentWidthReal'', Num 100),
              (''documentHeightReal'', Num 50), (''maxRows'', Num 1),
              (''maxColumns'', Num 5)]"
  let ?p' = "[(''documentWidth'', Num 50), (''documentHeight'', Num 100),
              (''documentMargin'', Num 0), (''itemWidth'', Num 20),
              (''itemHeight'', Num 30), (''documentWidthReal'', Num 50),
              (''documentHeightReal'', Num 100), (''maxRows'', Num 3),
              (''maxColumns'', Num 2)]"
  have 1: "documentWidth ?st' \<noteq> documentHeight ?st'" by simp
  have 2: "optimizeStepAndRepeat
           (request (max (documentWidth ?st') (documentHeight ?st'))
                    (min (documentWidth ?st') (documentHeight ?st'))
                    (documentMargin ?st') (itemWidth ?st') (itemHeight ?st')) = Some (Return ?l')"
    by (simp add: optimizeStepAndRepeat_def eval_defs countFits.simps)
  have 3: "optimizeStepAndRepeat
           (request (min (documentWidth ?st') (documentHeight ?st'))
                    (max (documentWidth ?st') (documentHeight ?st'))
                    (documentMargin ?st') (itemWidth ?st') (itemHeight ?st')) = Some (Return ?p')"
    by (simp add: optimizeStepAndRepeat_def eval_defs countFits.simps)
  have 4: "itemsCount ?l' < itemsCount ?p'" by (simp add: itemsCount_def lookup_def)
  from C4_preferred_candidate[OF 1 2 3, of True ?res] 4
  show "previews (fst (commitChanges True ?st' ?res)) = [(''portrait'', ?p')]" by simp
qed

text \<open>
  The older part_000 makes no such choice: on a non-square document on which both
  candidates succeed it renders both previews, the portrait one first.
\<close>

lemma part000_renders_both:
  assumes "documentWidth st \<noteq> documentHeight st"
    and "optimizeStepAndRepeat_part000
           (request (max (documentWidth st) (documentHeight st))
                    (min (documentWidth st) (documentHeight st))
                    (documentMargin st) (itemWidth st) (itemHeight st)) = Some (Return l)"
    and "optimizeStepAndRepeat_part000
           (request (min (documentWidth st) (documentHeight st))
                    (max (documentWidth st) (documentHeight st))
                    (documentMargin st) (itemWidth st) (itemHeight st)) = Some (Return p)"
  shows "previews (fst (commitChanges_part000 st res)) = [(''portrait'', p), (''landscape'', l)]"
proof (cases "documentWidth st > documentHeight st")
  case True
  then have m: "max (documentWidth st) (documentHeight st) = documentWidth st"
    "min (documentWidth st) (documentHeight st) = documentHeight st" by simp_all
  from assms True show ?thesis
    unfolding m by (simp add: commitChanges_part000_def Let_def)
next
  case False
  with assms(1) have m: "max (documentWidth st) (documentHeight st) = documentHeight st"
    "min (documentWidth st) (documentHeight st) = documentWidth st" by simp_all
  from assms False show ?thesis
    unfolding m by (simp add: commitChanges_part000_def Let_def)
qed

text \<open>
  C5 as stated fails: on a non-square document the optimizer is not always run twice.
  With a document of 100 by 20 and margin 12.7 the landscape run throws (the usable
  height is below zero) and the portrait run is never made.
\<close>

theorem C5_portrait_not_run_after_failure:
  "optimizerCalls (fst (commitChanges True
      \<lparr>documentWidth = 100, documentHeight = 20, documentMargin = 127 / 10, itemWidth = 10,
       itemHeight = 10, scrollToResult = True\<rparr>
      \<lparr>square = None, landscape = None, portrait = None\<rparr>)) =
     [request 100 20 (127 / 10) 10 10]"
  by (simp add: commitChanges_def optimizeStepAndRepeat_def eval_defs)

text \<open>
  C5, amended: the orientation selector runs the optimizer once with the dimensions
  unchanged when the width equals the height, and records the result as square. Otherwise
  it first runs the landscape candidate (documentWidth the greater, documentHeight the
  smaller of the two dimensions), and, if that run returns, the portrait candidate with
  the two swapped; both share the margin and the item dimensions, and the results are
  recorded as landscape and portrait. If the landscape run throws or does not return, the
  portrait run is not made.
\<close>

theorem C5_optimizer_runs:
  "optimizerCalls (fst (commitChanges useScroll st res)) =
     (if documentWidth st = documentHeight st
      then [request (documentWidth st) (documentHeight st)
                    (documentMargin st) (itemWidth st) (itemHeight st)]
      else request (max (documentWidth st) (documentHeight st))
                   (min (documentWidth st) (documentHeight st))
                   (documentMargin st) (itemWidth st) (itemHeight st)
           # (case optimizeStepAndRepeat
                     (request (max (documentWidth st) (documentHeight st))
                              (min (documentWidth st) (documentHeight st))
                              (documentMargin st) (itemWidth st) (itemHeight st)) of
                Some (Return l) \<Rightarrow>
                  [request (min (documentWidth st) (documentHeight st))
                           (max (documentWidth st) (documentHeight st))
                           (documentMargin st) (itemWidth st) (itemHeight st)]
              | _ \<Rightarrow> []))
   \<and> (documentWidth st = documentHeight st \<longrightarrow>
        (\<forall>r. optimizeStepAndRepeat
                (request (documentWidth st) (documentHeight st)
                         (documentMargin st) (itemWidth st) (itemHeight st)) = Some (Return r) \<longrightarrow>
             snd (commitChanges useScroll st res) = Some (res\<lparr>square := Some r\<rparr>)
             \<and> previews (fst (commitChanges useScroll st res)) = [(''square'', r)]))
   \<and> (documentWidth st \<noteq> documentHeight st \<longrightarrow>
        (\<forall>l p. optimizeStepAndRepeat
                  (request (max (documentWidth st) (documentHeight st))
                           (min (documentWidth st) (documentHeight st))
                           (documentMargin st) (itemWidth st) (itemHeight st)) = Some (Return l) \<longrightarrow>
               optimizeStepAndRepeat
                  (request (min (documentWidth st) (documentHeight st))
                           (max (documentWidth st) (documentHeight st))
                           (documentMargin st) (itemWidth st) (itemHeight st)) = Some (Return p) \<longrightarrow>
               snd (commitChanges useScroll st res)
                 = Some (res\<lparr>landscape := Some l, portrait := Some p\<rparr>)))"
proof -
  consider "documentWidth st = documentHeight st" | "documentWidth st > documentHeight st"
    | "documentWidth st < documentHeight st" by linarith
  then show ?thesis
  proof cases
    case 1
    then show ?thesis
      by (simp add: commitChanges_def Let_def split: option.splits outcome.splits)
  next
    case 2
    then have m: "max (documentWidth st) (documentHeight st) = documentWidth st"
      "min (documentWidth st) (documentHeight st) = documentHeight st" by simp_all
    from 2 show ?thesis
      unfolding m by (simp add: commitChanges_def Let_def split: option.splits outcome.splits)
  next
    case 3
    then have m: "max (documentWidth st) (documentHeight st) = documentHeight st"
      "min (documentWidth st) (documentHeight st) = documentWidth st" by simp_all
    from 3 show ?thesis
      unfolding m by (simp add: commitChanges_def Let_def split: option.splits outcome.splits)
  qed
qed

theorem C5_optimizer_runs_witness:
  "optimizerCalls (fst (commitChanges True
      \<lparr>documentWidth = 100, documentHeight = 100, documentMargin = 0, itemWidth = 30,
       itemHeight = 30, scrollToResult = True\<rparr>
      \<lparr>square = None, landscape = None, portrait = None\<rparr>)) = [request 100 100 0 30 30]
   \<and> snd (commitChanges True
      \<lparr>documentWidth = 100, documentHeight = 100, documentMargin = 0, itemWidth = 30,
       itemHeight = 30, scrollToResult = True\<rparr>
      \<lparr>square = None, landscape = None, portrait = None\<rparr>)
     = Some \<lparr>square = Some [(''documentWidth'', Num 100), (''documentHeight'', Num 100),
                             (''documentMargin'', Num 0), (''itemWidth'', Num 30),
                             (''itemHeight'', Num 30), (''documentWidthReal'', Num 100),
                             (''documentHeightReal'', Num 100), (''maxRows'', Num 3),
                             (''maxColumns'', Num 3)],
             landscape = None, portrait = None\<rparr>
   \<and> optimizerCalls (fst (commitChanges True
      \<lparr>documentWidth = 50, documentHeight = 100, documentMargin = 0, itemWidth = 10,
       itemHeight = 10, scrollToResult = True\<rparr>
      \<lparr>square = None, landscape = None, portrait = None\<rparr>))
     = [request 100 50 0 10 10, request 50 100 0 10 10]
   \<and> snd (commitChanges True
      \<lparr>documentWidth = 50, documentHeight = 100, documentMargin = 0, itemWidth = 10,
       itemHeight = 10, scrollToResult = True\<rparr>
      \<lparr>square = None, landscape = None, portrait = None\<rparr>)
     = Some \<lparr>square = None,
             landscape = Some [(''documentWidth'', Num 100), (''documentHeight'', Num 50),
                               (''documentMargin'', Num 0), (''itemWidth'', Num 10),
                               (''itemHeight'', Num 10), (''documentWidthReal'', Num 100),
                               (''documentHeightReal'', Num 50), (''maxRows'', Num 5),
                               (''maxColumns'', Num 10)],
             portrait = Some [(''documentWidth'', Num 50), (''documentHeight'', Num 100),
                              (''documentMargin'', Num 0), (''itemWidth'', Num 10),
                              (''itemHeight'', Num 10), (''documentWidthReal'', Num 50),
                              (''documentHeightReal'', Num 100), (''maxRows'', Num 10),
                              (''maxColumns'', Num 5)]\<rparr>"
proof -
  let ?res = "\<lparr>square = None, landscape = None, portrait = None\<rparr>"
  let ?sq = "\<lparr>documentWidth = 100, documentHeight = 100, documentMargin = 0, itemWidth = 30,
              itemHeight = 30, scrollToResult = True\<rparr>"
  let ?ns = "\<lparr>documentWidth = 50, documentHeight = 100, documentMargin = 0, itemWidth = 10,
              itemHeight = 10, scrollToResult = True\<rparr>"
  have s: "optimizeStepAndRepeat (request 100 100 0 30 30) =
    Some (Return [(''documentWidth'', Num 100), (''documentHeight'', Num 100),
             (''documentMargin'', Num 0), (''itemWidth'', Num 30),
             (''itemHeight'', Num 30), (''documentWidthReal'', Num 100),
             (''documentHeightReal'', Num 100), (''maxRows'', Num 3),
             (''maxColumns'', Num 3)])"
    by (simp add: optimizeStepAndRepeat_def eval_defs countFits.simps)
  have l: "optimizeStepAndRepeat (request 100 50 0 10 10) =
    Some (Return [(''documentWidth'', Num 100), (''documentHeight'', Num 50),
             (''documentMargin'', Num 0), (''itemWidth'', Num 10),
             (''itemHeight'', Num 10), (''documentWidthReal'', Num 100),
             (''documentHeightReal'', Num 50), (''maxRows'', Num 5),
             (''maxColumns'', Num 10)])"
    by (simp add: optimizeStepAndRepeat_def eval_defs countFits.simps)
  have p: "optimizeStepAndRepeat (request 50 100 0 10 10) =
    Some (Return [(''documentWidth'', Num 50), (''documentHeight'', Num 100),
             (''documentMargin'', Num 0), (''itemWidth'', Num 10),
             (''itemHeight'', Num 10), (''documentWidthReal'', Num 50),
             (''documentHeightReal'', Num 100), (''maxRows'', Num 10),
             (''maxColumns'', Num 5)])"
    by (simp add: optimizeStepAndRepeat_def eval_defs countFits.simps)
  from C5_optimizer_runs[of True ?sq ?res] s
  have 1: "optimizerCalls (fst (commitChanges True ?sq ?res)) = [request 100 100 0 30 30]"
    and 2: "snd (commitChanges True ?sq ?res)
              = Some \<lparr>square = Some [(''documentWidth'', Num 100), (''documentHeight'', Num 100),
                             (''documentMargin'', Num 0), (''itemWidth'', Num 30),
                             (''itemHeight'', Num 30), (''documentWidthReal'', Num 100),
                             (''documentHeightReal'', Num 100), (''maxRows'', Num 3),
                             (''maxColumns'', Num 3)],
                      landscape = None, portrait = None\<rparr>"
    by simp_all
  from C5_optimizer_runs[of True ?ns ?res] l p
  have 3: "optimizerCalls (fst (commitChanges True ?ns ?res))
             = [request 100 50 0 10 10, request 50 100 0 10 10]"
    and 4: "snd (commitChanges True ?ns ?res)
     = Some \<lparr>square = None,
             landscape = Some [(''documentWidth'', Num 100), (''documentHeight'', Num 50),
                               (''documentMargin'', Num 0), (''itemWidth'', Num 10),
                               (''itemHeight'', Num 10), (''documentWidthReal'', Num 100),
                               (''documentHeightReal'', Num 50), (''maxRows'', Num 5),
                               (''maxColumns'', Num 10)],
             portrait = Some [(''documentWidth'', Num 50), (''documentHeight'', Num 100),
                              (''documentMargin'', Num 0), (''itemWidth'', Num 10),
                              (''itemHeight'', Num 10), (''documentWidthReal'', Num 50),
                              (''documentHeightReal'', Num 100), (''maxRows'', Num 10),
                              (''maxColumns'', Num 5)]\<rparr>"
    by simp_all
  from 1 2 3 4 show ?thesis by (intro conjI)
qed

end
